theory Spec2Isabelle
  imports Complex_Main
begin

section \<open>Conventions of the embedding\<close>

text \<open>
  The program is JavaScript. Its numbers are IEEE doubles. Where a result depends on
  how a double is rounded (the damage computation), the arithmetic is modelled as it
  is: every operation rounds to the nearest double, and the infinities and NaN are
  values. Elsewhere (ages, times, angles, ammunition, health) a number is taken as a
  \<^typ>\<open>real\<close>, and counters, array lengths and array indices as \<^typ>\<open>int\<close> or
  \<^typ>\<open>nat\<close>. Objects of the rendering library (meshes, particle systems, lights) are
  opaque handles of type \<^typ>\<open>nat\<close>; their geometry, materials and textures are not
  modelled. A method that mutates \<open>this\<close> becomes a function from the old object to the
  new one.
\<close>

section \<open>The effects manager (class EffectsManager)\<close>

text \<open>
  The tracked effect object \<open>{type, object, lifetime, age, update}\<close>. The \<open>update\<close>
  closure of both kinds adds \<open>deltaTime\<close> to \<open>age\<close>, adjusts the material's opacity and
  the particle buffers (not modelled) and returns \<open>age >= lifetime\<close>.
\<close>

record Effect =
  type :: string
  object :: nat
  lifetime :: real
  age :: real

definition Effect_update :: "real \<Rightarrow> Effect \<Rightarrow> Effect \<times> bool" where
  "Effect_update deltaTime effect =
     (let effect' = effect\<lparr>age := age effect + deltaTime\<rparr>
      in (effect', age effect' \<ge> lifetime effect'))"

text \<open>
  The manager. \<open>scene\<close> is the list of children of the THREE scene that the manager
  added; \<open>nextObject\<close> is the supply of handles for objects made by \<open>new\<close>.
\<close>

record EffectsManager =
  scene :: "nat list"
  activeEffects :: "Effect list"
  maxParticleSystems :: int
  maxDecals :: int
  particleCount :: int
  decalCount :: int
  nextObject :: nat

definition EffectsManager_new :: "nat list \<Rightarrow> EffectsManager" where
  "EffectsManager_new sc =
     \<lparr>scene = sc, activeEffects = [], maxParticleSystems = 20, maxDecals = 50,
      particleCount = 0, decalCount = 0, nextObject = 0\<rparr>"

text \<open>
  The search loop of \<open>removeOldestEffect\<close>: \<open>oldestIndex\<close> starts at \<open>-1\<close> and
  \<open>oldestAge\<close> at \<open>0\<close>; an effect replaces the candidate when its type matches and its
  age is strictly greater than \<open>oldestAge\<close>.
\<close>

fun findOldest :: "string \<Rightarrow> Effect list \<Rightarrow> nat \<Rightarrow> int \<times> real \<Rightarrow> int \<times> real" where
  "findOldest ty [] i acc = acc"
| "findOldest ty (effect # rest) i (oldestIndex, oldestAge) =
     findOldest ty rest (Suc i)
       (if type effect = ty \<and> age effect > oldestAge then (int i, age effect)
        else (oldestIndex, oldestAge))"

definition splice1 :: "nat \<Rightarrow> 'a list \<Rightarrow> 'a list" where
  \<comment> \<open>\<open>xs.splice(k, 1)\<close>: the list without its element at index \<open>k\<close>\<close>
  "splice1 k xs = take k xs @ drop (Suc k) xs"

definition removeOldestEffect :: "string \<Rightarrow> EffectsManager \<Rightarrow> EffectsManager" where
  "removeOldestEffect ty s =
     (let oldestIndex = fst (findOldest ty (activeEffects s) 0 (- 1, 0))
      in if oldestIndex \<ge> 0 then
           (let effect = activeEffects s ! nat oldestIndex
            in s\<lparr>scene := remove1 (object effect) (scene s),
                 activeEffects := splice1 (nat oldestIndex) (activeEffects s),
                 particleCount :=
                   (if ty = ''particle'' then particleCount s - 1 else particleCount s),
                 decalCount :=
                   (if ty = ''decal'' then decalCount s - 1 else decalCount s)\<rparr>)
         else s)"

text \<open>
  \<open>createBloodParticles\<close> and \<open>createBloodSplatter\<close>. Position, normal, intensity and
  size only shape the geometry of the created object, so they are not parameters here.
\<close>

definition createBloodParticles :: "EffectsManager \<Rightarrow> EffectsManager" where
  "createBloodParticles s0 =
     (let s = (if particleCount s0 \<ge> maxParticleSystems s0
               then removeOldestEffect ''particle'' s0 else s0);
          particleSystem = nextObject s;
          effect = \<lparr>type = ''particle'', object = particleSystem, lifetime = 2.0, age = 0\<rparr>
      in s\<lparr>scene := scene s @ [particleSystem],
           activeEffects := activeEffects s @ [effect],
           particleCount := particleCount s + 1,
           nextObject := Suc (nextObject s)\<rparr>)"

definition createBloodSplatter :: "EffectsManager \<Rightarrow> EffectsManager" where
  "createBloodSplatter s0 =
     (let s = (if decalCount s0 \<ge> maxDecals s0
               then removeOldestEffect ''decal'' s0 else s0);
          splatter = nextObject s;
          effect = \<lparr>type = ''decal'', object = splatter, lifetime = 30.0, age = 0\<rparr>
      in s\<lparr>scene := scene s @ [splatter],
           activeEffects := activeEffects s @ [effect],
           decalCount := decalCount s + 1,
           nextObject := Suc (nextObject s)\<rparr>)"

text \<open>
  \<open>createBloodImpact\<close>: one particle system, one splatter and, for an intensity above
  \<open>0.7\<close>, \<open>Math.floor((intensity - 0.7) * 6)\<close> further splatters.
\<close>

definition createBloodImpact :: "real \<Rightarrow> EffectsManager \<Rightarrow> EffectsManager" where
  "createBloodImpact intensity s =
     (let s1 = createBloodParticles s;
          s2 = createBloodSplatter s1
      in if intensity > 0.7
         then (createBloodSplatter ^^ nat \<lfloor>(intensity - 0.7) * 6\<rfloor>) s2
         else s2)"

text \<open>
  \<open>update\<close> walks the array from its last index down to \<open>0\<close>; \<open>update_at\<close> is the loop
  body at index \<open>i\<close> (always below the current length, since only indices at or above
  \<open>i\<close> have been removed).
\<close>

definition update_at :: "real \<Rightarrow> nat \<Rightarrow> EffectsManager \<Rightarrow> EffectsManager" where
  "update_at deltaTime i s =
     (let (effect, completed) = Effect_update deltaTime (activeEffects s ! i)
      in if completed then
           s\<lparr>scene := remove1 (object effect) (scene s),
             particleCount :=
               (if type effect = ''particle'' then particleCount s - 1 else particleCount s),
             decalCount :=
               (if type effect = ''decal'' then decalCount s - 1 else decalCount s),
             activeEffects := splice1 i (activeEffects s)\<rparr>
         else s\<lparr>activeEffects := (activeEffects s)[i := effect]\<rparr>)"

fun update_loop :: "real \<Rightarrow> nat \<Rightarrow> EffectsManager \<Rightarrow> EffectsManager" where
  "update_loop deltaTime 0 s = s"
| "update_loop deltaTime (Suc i) s = update_loop deltaTime i (update_at deltaTime i s)"

definition EffectsManager_update :: "real \<Rightarrow> EffectsManager \<Rightarrow> EffectsManager" where
  "EffectsManager_update deltaTime s = update_loop deltaTime (length (activeEffects s)) s"

definition clearAllEffects :: "EffectsManager \<Rightarrow> EffectsManager" where
  "clearAllEffects s =
     s\<lparr>scene := foldl (\<lambda>sc effect. remove1 (object effect) sc) (scene s) (activeEffects s),
       activeEffects := [], particleCount := 0, decalCount := 0\<rparr>"

text \<open>Sequences of calls on one manager.\<close>

datatype effects_call =
    CreateBloodParticles
  | CreateBloodSplatter
  | CreateBloodImpact real
  | RemoveOldestEffect string
  | Update real
  | ClearAllEffects

fun effects_step :: "EffectsManager \<Rightarrow> effects_call \<Rightarrow> EffectsManager" where
  "effects_step s CreateBloodParticles = createBloodParticles s"
| "effects_step s CreateBloodSplatter = createBloodSplatter s"
| "effects_step s (CreateBloodImpact intensity) = createBloodImpact intensity s"
| "effects_step s (RemoveOldestEffect ty) = removeOldestEffect ty s"
| "effects_step s (Update deltaTime) = EffectsManager_update deltaTime s"
| "effects_step s ClearAllEffects = clearAllEffects s"

definition effects_run :: "EffectsManager \<Rightarrow> effects_call list \<Rightarrow> EffectsManager" where
  "effects_run s calls = foldl effects_step s calls"

definition live :: "string \<Rightarrow> EffectsManager \<Rightarrow> nat" where
  \<comment> \<open>the number of tracked effects of one type\<close>
  "live ty s = length (filter (\<lambda>effect. type effect = ty) (activeEffects s))"

definition counts_ok :: "EffectsManager \<Rightarrow> bool" where
  "counts_ok s \<longleftrightarrow>
     particleCount s = int (live ''particle'' s) \<and> decalCount s = int (live ''decal'' s)"

section \<open>The weapons (classes Weapon, MeleeWeapon, RangedWeapon)\<close>

type_synonym vec3 = "real \<times> real \<times> real"

text \<open>
  Constructor parameters: a field that the caller leaves out is \<open>None\<close>. The
  constructors read them with \<open>params.x || default\<close>, which also replaces \<open>0\<close>, the empty
  string and \<open>false\<close> by the default.
\<close>

record WeaponParams =
  p_name :: "string option"
  p_damage :: "real option"
  p_cooldown :: "real option"
  p_range :: "real option"
  p_swingWidth :: "real option"
  p_swingDuration :: "real option"
  p_knockback :: "real option"
  p_attackType :: "string option"
  p_startAmmo :: "real option"
  p_maxAmmo :: "real option"
  p_reserveAmmo :: "real option"
  p_fireMode :: "string option"
  p_reloadTime :: "real option"
  p_accuracy :: "real option"
  p_projectileSpeed :: "real option"
  p_useProjectile :: "bool option"

definition no_params :: WeaponParams where
  "no_params =
     \<lparr>p_name = None, p_damage = None, p_cooldown = None, p_range = None,
      p_swingWidth = None, p_swingDuration = None, p_knockback = None, p_attackType = None,
      p_startAmmo = None, p_maxAmmo = None, p_reserveAmmo = None, p_fireMode = None,
      p_reloadTime = None, p_accuracy = None, p_projectileSpeed = None,
      p_useProjectile = None\<rparr>"

definition num_or :: "real option \<Rightarrow> real \<Rightarrow> real" where
  "num_or p d = (case p of None \<Rightarrow> d | Some x \<Rightarrow> if x = 0 then d else x)"

definition str_or :: "string option \<Rightarrow> string \<Rightarrow> string" where
  "str_or p d = (case p of None \<Rightarrow> d | Some x \<Rightarrow> if x = [] then d else x)"

definition bool_or :: "bool option \<Rightarrow> bool \<Rightarrow> bool" where
  "bool_or p d = (case p of None \<Rightarrow> d | Some x \<Rightarrow> if x then x else d)"

text \<open>
  The base class. \<open>model\<close> is the handle of the weapon's THREE group and
  \<open>model_rotation\<close> its Euler rotation; \<open>weapon_range\<close> is the field \<open>range\<close>.
\<close>

record Weapon =
  name :: string
  damage :: real
  cooldown :: real
  lastUsed :: real
  weapon_range :: real
  model :: nat
  model_rotation :: vec3

text \<open>
  \<open>canUse\<close> and \<open>use\<close> read the clock, \<open>performance.now() / 1000\<close>; the reading is the
  parameter \<open>now\<close> (one reading for both). Playing the sound effects is not modelled.
\<close>

definition canUse :: "real \<Rightarrow> 'a Weapon_scheme \<Rightarrow> bool" where
  "canUse now w \<longleftrightarrow> now - lastUsed w \<ge> cooldown w"

definition Weapon_use :: "real \<Rightarrow> 'a Weapon_scheme \<Rightarrow> bool \<times> 'a Weapon_scheme" where
  "Weapon_use now w =
     (if \<not> canUse now w then (False, w)
      else (True, w\<lparr>lastUsed := now\<rparr>))"

subsection \<open>Double-precision arithmetic\<close>

text \<open>
  A JavaScript number: a finite double, an infinity or NaN. \<open>Num x\<close> is the finite
  double of value \<open>x\<close>; the two zeros are the one value \<open>Num 0\<close> (they are equal as
  numbers, and the sign of a zero shows only when something is divided by it: a zero
  divisor is taken as \<open>+0\<close>).
\<close>

datatype jsnum = Num real | PosInfinity | NegInfinity | NaN

text \<open>
  The binade of a positive real \<open>a\<close>: the \<open>e\<close> with \<open>2 ^ e \<le> a < 2 ^ (e + 1)\<close>, found by halving
  or doubling, and kept within \<open>-1022\<close> (the subnormal doubles share the spacing of the
  lowest binade) and \<open>1024\<close> (from there on every result overflows).
\<close>

function exponent_up :: "real \<Rightarrow> int \<Rightarrow> int" where
  "exponent_up x e = (if x < 2 \<or> 1024 \<le> e then e else exponent_up (x / 2) (e + 1))"
  by pat_completeness auto
termination
  by (relation "measure (\<lambda>(x, e). nat (1024 - e))") auto

function exponent_down :: "real \<Rightarrow> int \<Rightarrow> int" where
  "exponent_down x e = (if 1 \<le> x \<or> e \<le> - 1022 then e else exponent_down (x * 2) (e - 1))"
  by pat_completeness auto
termination
  by (relation "measure (\<lambda>(x, e). nat (e + 1022))") auto

declare exponent_up.simps [simp del] exponent_down.simps [simp del]

definition exponent :: "real \<Rightarrow> int" where
  "exponent a = (if 1 \<le> a then exponent_up a 0 else exponent_down a 0)"

definition round_half_even :: "real \<Rightarrow> int" where
  "round_half_even x =
     (let f = \<lfloor>x\<rfloor>; r = x - of_int f
      in if r < 1 / 2 then f else if 1 / 2 < r then f + 1
         else if even f then f else f + 1)"

text \<open>
  \<open>fl x\<close> is the double that an operation with the exact result \<open>x\<close> returns: \<open>x\<close> is
  rounded to the nearest multiple of the spacing \<open>2 ^ (e - 52)\<close> of its binade, a tie going to
  the even multiple, and a result of magnitude \<open>2 ^ 1024\<close> or more is an infinity.
\<close>

definition fl :: "real \<Rightarrow> jsnum" where
  "fl x =
     (if x = 0 then Num 0
      else
        (let e = exponent \<bar>x\<bar>;
             quantum = 2 powi (e - 52);
             y = of_int (round_half_even (x / quantum)) * quantum
         in if 2 ^ 1024 \<le> y then PosInfinity
            else if y \<le> - (2 ^ 1024) then NegInfinity
            else Num y))"

definition is_double :: "real \<Rightarrow> bool" where
  \<comment> \<open>the real is the value of a finite double\<close>
  "is_double x \<longleftrightarrow> fl x = Num x"

text \<open>The operators \<open>*\<close>, \<open>/\<close> and \<open>-\<close> on numbers.\<close>

fun fmul :: "jsnum \<Rightarrow> jsnum \<Rightarrow> jsnum" where
  "fmul NaN b = NaN"
| "fmul a NaN = NaN"
| "fmul (Num x) (Num y) = fl (x * y)"
| "fmul (Num x) PosInfinity =
     (if x = 0 then NaN else if 0 < x then PosInfinity else NegInfinity)"
| "fmul (Num x) NegInfinity =
     (if x = 0 then NaN else if 0 < x then NegInfinity else PosInfinity)"
| "fmul PosInfinity (Num y) =
     (if y = 0 then NaN else if 0 < y then PosInfinity else NegInfinity)"
| "fmul NegInfinity (Num y) =
     (if y = 0 then NaN else if 0 < y then NegInfinity else PosInfinity)"
| "fmul PosInfinity PosInfinity = PosInfinity"
| "fmul PosInfinity NegInfinity = NegInfinity"
| "fmul NegInfinity PosInfinity = NegInfinity"
| "fmul NegInfinity NegInfinity = PosInfinity"

fun fdiv :: "jsnum \<Rightarrow> jsnum \<Rightarrow> jsnum" where
  "fdiv NaN b = NaN"
| "fdiv a NaN = NaN"
| "fdiv (Num x) (Num y) =
     (if y = 0 then (if x = 0 then NaN else if 0 < x then PosInfinity else NegInfinity)
      else fl (x / y))"
| "fdiv (Num x) PosInfinity = Num 0"
| "fdiv (Num x) NegInfinity = Num 0"
| "fdiv PosInfinity (Num y) = (if 0 \<le> y then PosInfinity else NegInfinity)"
| "fdiv NegInfinity (Num y) = (if 0 \<le> y then NegInfinity else PosInfinity)"
| "fdiv PosInfinity PosInfinity = NaN"
| "fdiv PosInfinity NegInfinity = NaN"
| "fdiv NegInfinity PosInfinity = NaN"
| "fdiv NegInfinity NegInfinity = NaN"

fun fsub :: "jsnum \<Rightarrow> jsnum \<Rightarrow> jsnum" where
  "fsub NaN b = NaN"
| "fsub a NaN = NaN"
| "fsub (Num x) (Num y) = fl (x - y)"
| "fsub (Num x) PosInfinity = NegInfinity"
| "fsub (Num x) NegInfinity = PosInfinity"
| "fsub PosInfinity (Num y) = PosInfinity"
| "fsub NegInfinity (Num y) = NegInfinity"
| "fsub PosInfinity PosInfinity = NaN"
| "fsub PosInfinity NegInfinity = PosInfinity"
| "fsub NegInfinity PosInfinity = NegInfinity"
| "fsub NegInfinity NegInfinity = NaN"

fun Math_max0 :: "jsnum \<Rightarrow> jsnum" where
  \<comment> \<open>\<open>Math.max(0, v)\<close>\<close>
  "Math_max0 NaN = NaN"
| "Math_max0 PosInfinity = PosInfinity"
| "Math_max0 NegInfinity = Num 0"
| "Math_max0 (Num x) = Num (max 0 x)"

fun Math_round :: "jsnum \<Rightarrow> jsnum" where
  \<comment> \<open>\<open>Math.round(v)\<close>: the nearest integer, a half going up; exact, no rounding error\<close>
  "Math_round (Num x) = Num (of_int \<lfloor>x + 1 / 2\<rfloor>)"
| "Math_round v = v"

subsection \<open>The damage computation\<close>

text \<open>
  \<open>calculateDamage(modifiers)\<close>: \<open>critical\<close> is the truth value of \<open>modifiers.critical\<close>,
  \<open>distance\<close> is \<open>modifiers.distance\<close> (\<open>None\<close> when absent). The falloff is applied
  when the distance is truthy, that is present and not \<open>0\<close>. The fields \<open>damage\<close> and
  \<open>range\<close> and the distance enter as the doubles they are, and every operation rounds.
\<close>

definition calculateDamage :: "'a Weapon_scheme \<Rightarrow> bool \<Rightarrow> real option \<Rightarrow> jsnum" where
  "calculateDamage w critical distance =
     (let finalDamage = Num (damage w);
          finalDamage = (if critical then fmul finalDamage (Num 2) else finalDamage);
          finalDamage =
            (case distance of
               None \<Rightarrow> finalDamage
             | Some d \<Rightarrow>
                 if d \<noteq> 0
                 then (let falloff =
                             Math_max0 (fsub (Num 1) (fdiv (Num d) (Num (weapon_range w))))
                       in fmul finalDamage falloff)
                 else finalDamage)
      in Math_round finalDamage)"

definition finalDamage_spec :: "real \<Rightarrow> bool \<Rightarrow> real \<Rightarrow> real \<Rightarrow> int" where
  \<comment> \<open>the formula as the specification writes it, in exact arithmetic\<close>
  "finalDamage_spec baseDamage critical distance rng =
     round (baseDamage * (if critical then 2 else 1) * max 0 (1 - distance / rng))"

definition finalDamage_double :: "real \<Rightarrow> bool \<Rightarrow> real \<Rightarrow> real \<Rightarrow> jsnum" where
  \<comment> \<open>the same formula with the operations of the doubles\<close>
  "finalDamage_double baseDamage critical distance rng =
     Math_round
       (fmul (fmul (Num baseDamage) (Num (if critical then 2 else 1)))
             (Math_max0 (fsub (Num 1) (fdiv (Num distance) (Num rng)))))"

subsection \<open>Ray casting\<close>

text \<open>
  An intersection as THREE's raycaster returns it, and the object passed to the hit
  callback.
\<close>

record 'obj intersection =
  hit_distance :: real
  hit_point :: vec3
  hit_normal :: vec3
  hit_object :: 'obj

record 'obj hit_report =
  report_object :: 'obj
  report_point :: vec3
  report_normal :: vec3
  report_damage :: jsnum
  report_knockback :: "real option"

text \<open>
  \<open>Raycaster.intersectObjects(objects)\<close> of the library: every object of the list is
  tested by its own \<open>raycast\<close> method, which yields its intersections with the ray up to
  the distance \<open>far\<close>, and the collected intersections are sorted by distance. The
  per-object test is the parameter \<open>raycast\<close>.
\<close>

definition intersectObjects ::
  "('obj \<Rightarrow> vec3 \<Rightarrow> vec3 \<Rightarrow> real \<Rightarrow> 'obj intersection list) \<Rightarrow>
     vec3 \<Rightarrow> vec3 \<Rightarrow> real \<Rightarrow> 'obj list \<Rightarrow> 'obj intersection list" where
  "intersectObjects raycast origin direction far objects =
     sort_key hit_distance (concat (map (\<lambda>ob. raycast ob origin direction far) objects))"

definition degToRad :: "real \<Rightarrow> real" where
  "degToRad degrees = degrees * (pi / 180)"

definition applyAxisAngleY :: "vec3 \<Rightarrow> real \<Rightarrow> vec3" where
  \<comment> \<open>\<open>v.applyAxisAngle(new Vector3(0, 1, 0), angle)\<close>\<close>
  "applyAxisAngleY v angle =
     (case v of (x, y, z) \<Rightarrow>
        (x * cos angle + z * sin angle, y, z * cos angle - x * sin angle))"

definition normalize :: "vec3 \<Rightarrow> vec3" where
  \<comment> \<open>\<open>v.normalize()\<close>, which divides by \<open>length() || 1\<close>\<close>
  "normalize v =
     (case v of (x, y, z) \<Rightarrow>
        (let l = sqrt (x * x + y * y + z * z); l = (if l = 0 then 1 else l)
         in (x / l, y / l, z / l)))"

subsection \<open>MeleeWeapon\<close>

record MeleeWeapon = Weapon +
  swingWidth :: real
  swingDuration :: real
  isSwinging :: bool
  swingProgress :: real
  knockback :: real
  attackType :: string
  initialRotation :: vec3
  targetRotation :: vec3

definition MeleeWeapon_new :: "nat \<Rightarrow> WeaponParams \<Rightarrow> MeleeWeapon" where
  "MeleeWeapon_new handle params =
     \<lparr>name = str_or (p_name params) ''Unknown Weapon'',
      damage = num_or (Some (num_or (p_damage params) 40)) 20,
      cooldown = num_or (Some (num_or (p_cooldown params) 0.8)) 0.5,
      lastUsed = 0,
      weapon_range = num_or (Some (num_or (p_range params) 2.5)) 2.0,
      model = handle,
      model_rotation = (0, 0, 0),
      swingWidth = num_or (p_swingWidth params) 90,
      swingDuration = num_or (p_swingDuration params) 0.3,
      isSwinging = False,
      swingProgress = 0,
      knockback = num_or (p_knockback params) 2.0,
      attackType = str_or (p_attackType params) ''swing'',
      initialRotation = (0, 0, 0),
      targetRotation = (0, 0, 0)\<rparr>"

definition arcSteps :: nat where
  "arcSteps = 5"

text \<open>
  The angles of the arc rays in the order of the loop: for \<open>i = 1 .. arcSteps\<close> the left
  angle \<open>(i / arcSteps) * (arcAngle / 2)\<close>, then the right angle, its negation.
\<close>

definition arcAngles :: "real \<Rightarrow> real list" where
  "arcAngles arcAngle =
     concat (map (\<lambda>i. [(real i / real arcSteps) * (arcAngle / 2),
                        - (real i / real arcSteps) * (arcAngle / 2)])
                 [1 ..< Suc arcSteps])"

definition rayDirections :: "real \<Rightarrow> vec3 \<Rightarrow> vec3 list" where
  \<comment> \<open>the centre ray first, then the arc rays\<close>
  "rayDirections arcAngle direction =
     direction # map (applyAxisAngleY direction) (arcAngles arcAngle)"

text \<open>
  \<open>performHitDetection\<close>: every ray is intersected with the empty list of objects
  (\<open>raycaster.intersectObjects([])\<close>, under the comment \<open>Add scene objects here\<close>). The
  result is the list of calls of \<open>hitCallback\<close>. The light that \<open>showImpactEffect\<close> adds
  to the scene is not modelled.
\<close>

definition performHitDetection ::
  "('obj \<Rightarrow> vec3 \<Rightarrow> vec3 \<Rightarrow> real \<Rightarrow> 'obj intersection list) \<Rightarrow>
     MeleeWeapon \<Rightarrow> vec3 \<Rightarrow> vec3 \<Rightarrow> 'obj hit_report list" where
  "performHitDetection raycast w position direction =
     (let arcAngle = degToRad (swingWidth w);
          hits = concat (map (\<lambda>dir. intersectObjects raycast position dir (weapon_range w) [])
                             (rayDirections arcAngle direction))
      in if length hits > 0 then
           (let closestHit = hd (sort_key hit_distance hits)
            in if hit_distance closestHit \<le> weapon_range w then
                 [\<lparr>report_object = hit_object closestHit,
                   report_point = hit_point closestHit,
                   report_normal = hit_normal closestHit,
                   report_damage = calculateDamage w False (Some (hit_distance closestHit)),
                   report_knockback = Some (knockback w)\<rparr>]
               else [])
         else [])"

definition MeleeWeapon_use ::
  "('obj \<Rightarrow> vec3 \<Rightarrow> vec3 \<Rightarrow> real \<Rightarrow> 'obj intersection list) \<Rightarrow>
     real \<Rightarrow> vec3 \<Rightarrow> vec3 \<Rightarrow> MeleeWeapon \<Rightarrow> bool \<times> MeleeWeapon \<times> 'obj hit_report list" where
  "MeleeWeapon_use raycast now position direction w =
     (case Weapon_use now w of
        (False, _) \<Rightarrow> (False, w, [])
      | (True, w1) \<Rightarrow>
          (let w2 = w1\<lparr>isSwinging := True, swingProgress := 0\<rparr>;
               w3 = w2\<lparr>initialRotation := model_rotation w2\<rparr>;
               w4 = w3\<lparr>targetRotation :=
                      (case initialRotation w3 of (x, y, z) \<Rightarrow>
                         (x - pi * 0.25, y,
                          z + (if attackType w3 = ''swing'' then pi * 0.5 else 0)))\<rparr>
           in (True, w4, performHitDetection raycast w4 position direction)))"

subsection \<open>RangedWeapon\<close>

text \<open>
  \<open>ammo_current\<close>, \<open>ammo_max\<close> and \<open>ammo_reserve\<close> are the fields of \<open>this.ammo\<close>;
  \<open>muzzleFlash_visible\<close> is \<open>this.muzzleFlash.visible\<close>.
\<close>

record RangedWeapon = Weapon +
  ammo_current :: real
  ammo_max :: real
  ammo_reserve :: real
  fireMode :: string
  reloadTime :: real
  isReloading :: bool
  reloadProgress :: real
  accuracy :: real
  projectileSpeed :: real
  useProjectile :: bool
  muzzleFlash_visible :: bool

definition RangedWeapon_new :: "nat \<Rightarrow> WeaponParams \<Rightarrow> RangedWeapon" where
  "RangedWeapon_new handle params =
     \<lparr>name = str_or (p_name params) ''Unknown Weapon'',
      damage = num_or (Some (num_or (p_damage params) 25)) 20,
      cooldown = num_or (Some (num_or (p_cooldown params) 0.1)) 0.5,
      lastUsed = 0,
      weapon_range = num_or (Some (num_or (p_range params) 100)) 2.0,
      model = handle,
      model_rotation = (0, 0, 0),
      ammo_current = num_or (p_startAmmo params) 30,
      ammo_max = num_or (p_maxAmmo params) 30,
      ammo_reserve = num_or (p_reserveAmmo params) 90,
      fireMode = str_or (p_fireMode params) ''semi'',
      reloadTime = num_or (p_reloadTime params) 2.0,
      isReloading = False,
      reloadProgress = 0,
      accuracy = num_or (p_accuracy params) 0.95,
      projectileSpeed = num_or (p_projectileSpeed params) 500,
      useProjectile = bool_or (p_useProjectile params) False,
      muzzleFlash_visible = False\<rparr>"

definition reload :: "RangedWeapon \<Rightarrow> bool \<times> RangedWeapon" where
  "reload w =
     (if isReloading w \<or> ammo_current w = ammo_max w \<or> ammo_reserve w \<le> 0
      then (False, w)
      else (True, w\<lparr>isReloading := True, reloadProgress := 0\<rparr>))"

text \<open>
  \<open>performRaycast\<close> intersects the empty list of objects as well; it reports the first
  intersection and passes no knockback.
\<close>

definition performRaycast ::
  "('obj \<Rightarrow> vec3 \<Rightarrow> vec3 \<Rightarrow> real \<Rightarrow> 'obj intersection list) \<Rightarrow>
     RangedWeapon \<Rightarrow> vec3 \<Rightarrow> vec3 \<Rightarrow> 'obj hit_report list" where
  "performRaycast raycast w position direction =
     (let hits = intersectObjects raycast position direction (weapon_range w) []
      in case hits of
           [] \<Rightarrow> []
         | hit # _ \<Rightarrow>
             [\<lparr>report_object = hit_object hit,
               report_point = hit_point hit,
               report_normal = hit_normal hit,
               report_damage = calculateDamage w False (Some (hit_distance hit)),
               report_knockback = None\<rparr>])"

text \<open>
  \<open>use\<close> of a ranged weapon. \<open>rnd\<close> holds the three values of \<open>Math.random()\<close> drawn
  for the spread. A projectile weapon hands the callback to the projectile and calls
  nothing at the time of the shot; the projectile mesh added to the scene and the timer
  that hides the muzzle flash after 50 ms are not modelled.
\<close>

definition RangedWeapon_use ::
  "('obj \<Rightarrow> vec3 \<Rightarrow> vec3 \<Rightarrow> real \<Rightarrow> 'obj intersection list) \<Rightarrow>
     real \<Rightarrow> vec3 \<Rightarrow> vec3 \<Rightarrow> vec3 \<Rightarrow> RangedWeapon \<Rightarrow>
     bool \<times> RangedWeapon \<times> 'obj hit_report list" where
  "RangedWeapon_use raycast now rnd position direction w =
     (if isReloading w then (False, w, [])
      else if ammo_current w \<le> 0 then (False, snd (reload w), [])
      else
        (case Weapon_use now w of
           (False, _) \<Rightarrow> (False, w, [])
         | (True, w1) \<Rightarrow>
             (let w2 = w1\<lparr>ammo_current := ammo_current w1 - 1\<rparr>;
                  spread = (1 - accuracy w2) * 0.1;
                  deviation =
                    (case rnd of (r1, r2, r3) \<Rightarrow>
                       ((r1 - 0.5) * spread, (r2 - 0.5) * spread, (r3 - 0.5) * spread));
                  finalDirection =
                    (case (direction, deviation) of ((x, y, z), (dx, dy, dz)) \<Rightarrow>
                       normalize (x + dx, y + dy, z + dz));
                  w3 = w2\<lparr>muzzleFlash_visible := True\<rparr>
              in if useProjectile w3 then (True, w3, [])
                 else (True, w3, performRaycast raycast w3 position finalDirection))))"

text \<open>
  \<open>update\<close> of a ranged weapon: the reload completes when \<open>reloadProgress\<close> reaches
  \<open>1\<close>. (\<open>reloadTime\<close> is never \<open>0\<close> for a constructed weapon.)
\<close>

definition RangedWeapon_update :: "real \<Rightarrow> RangedWeapon \<Rightarrow> RangedWeapon" where
  "RangedWeapon_update deltaTime w =
     (if isReloading w then
        (let w1 = w\<lparr>reloadProgress := reloadProgress w + deltaTime / reloadTime w\<rparr>
         in if reloadProgress w1 \<ge> 1.0 then
              (let w2 = w1\<lparr>isReloading := False\<rparr>;
                   ammoNeeded = ammo_max w2 - ammo_current w2;
                   ammoAvailable = min ammoNeeded (ammo_reserve w2)
               in w2\<lparr>ammo_current := ammo_current w2 + ammoAvailable,
                     ammo_reserve := ammo_reserve w2 - ammoAvailable\<rparr>)
            else w1)
      else w)"

text \<open>Sequences of calls on one ranged weapon.\<close>

datatype ranged_call =
    Use real vec3 vec3 vec3
  | Reload
  | UpdateWeapon real

fun ranged_step ::
  "('obj \<Rightarrow> vec3 \<Rightarrow> vec3 \<Rightarrow> real \<Rightarrow> 'obj intersection list) \<Rightarrow>
     RangedWeapon \<Rightarrow> ranged_call \<Rightarrow> RangedWeapon" where
  "ranged_step raycast w (Use now rnd position direction) =
     fst (snd (RangedWeapon_use raycast now rnd position direction w))"
| "ranged_step raycast w Reload = snd (reload w)"
| "ranged_step raycast w (UpdateWeapon deltaTime) = RangedWeapon_update deltaTime w"

text \<open>
  A scene for concrete runs: \<open>wall_ahead\<close> is the \<open>raycast\<close> of objects that every ray
  from the origin meets at distance \<open>1\<close>.
\<close>

definition wall_ahead :: "nat \<Rightarrow> vec3 \<Rightarrow> vec3 \<Rightarrow> real \<Rightarrow> nat intersection list" where
  "wall_ahead ob origin direction far =
     (if 1 \<le> far
      then [\<lparr>hit_distance = 1, hit_point = direction, hit_normal = (0, 0, 1), hit_object = ob\<rparr>]
      else [])"

definition ranged_run ::
  "('obj \<Rightarrow> vec3 \<Rightarrow> vec3 \<Rightarrow> real \<Rightarrow> 'obj intersection list) \<Rightarrow>
     RangedWeapon \<Rightarrow> ranged_call list \<Rightarrow> RangedWeapon" where
  "ranged_run raycast w calls = foldl (ranged_step raycast) w calls"

definition one_round_gun :: RangedWeapon where
  \<comment> \<open>\<open>new RangedWeapon({startAmmo: 1, maxAmmo: 1})\<close>\<close>
  "one_round_gun = RangedWeapon_new 0 (no_params\<lparr>p_startAmmo := Some 1, p_maxAmmo := Some 1\<rparr>)"

definition fired_gun :: RangedWeapon where
  \<comment> \<open>the same weapon after its only round was fired at time \<open>10\<close>\<close>
  "fired_gun =
     fst (snd (RangedWeapon_use wall_ahead 10 (0.5, 0.5, 0.5) (0, 0, 0) (0, 0, - 1)
                 one_round_gun))"

definition default_gun :: RangedWeapon where
  \<comment> \<open>\<open>new RangedWeapon()\<close>: damage \<open>25\<close>, range \<open>100\<close>\<close>
  "default_gun = RangedWeapon_new 0 no_params"

definition scenario_axe :: MeleeWeapon where
  \<comment> \<open>\<open>new MeleeWeapon({damage: 40, range: 2.5})\<close>\<close>
  "scenario_axe = MeleeWeapon_new 0 (no_params\<lparr>p_damage := Some 40, p_range := Some 2.5\<rparr>)"

section \<open>The player (class Player)\<close>

datatype AnyWeapon = Melee MeleeWeapon | Ranged RangedWeapon

fun weapon_model :: "AnyWeapon \<Rightarrow> nat" where
  "weapon_model (Melee w) = model w"
| "weapon_model (Ranged w) = model w"

text \<open>
  \<open>attachTo(parent, position, rotation)\<close> copies \<open>rotation\<close> into the rotation of the
  weapon's model and adds the model to \<open>parent\<close>; the second part is done by the caller
  here.
\<close>

definition attachTo :: "vec3 \<Rightarrow> 'a Weapon_scheme \<Rightarrow> 'a Weapon_scheme" where
  "attachTo rotation w = w\<lparr>model_rotation := rotation\<rparr>"

fun weapon_attachTo :: "vec3 \<Rightarrow> AnyWeapon \<Rightarrow> AnyWeapon" where
  "weapon_attachTo rotation (Melee w) = Melee (attachTo rotation w)"
| "weapon_attachTo rotation (Ranged w) = Ranged (attachTo rotation w)"

text \<open>
  What \<open>updateAmmoUI\<close> shows (a number, or the string \<open>'-'\<close> for a melee weapon) and
  the lines the player writes to the console.
\<close>

datatype ammo_text = AmmoNumber real | AmmoDash

datatype log_line = AmmoLine ammo_text ammo_text | PlayerDied

text \<open>
  The player: the fields that \<open>takeDamage\<close>, \<open>updateLook\<close> and the weapon selection
  read or write. \<open>playerBody_rotation_y\<close> and \<open>camera_rotation_x\<close> are
  \<open>playerBody.rotation.y\<close> and \<open>camera.rotation.x\<close>; \<open>weaponContainer\<close> is the list of
  children of the weapon container; \<open>ammoCounter\<close> is the text of the page's ammo
  counter. Movement, physics and the effects manager are not modelled.
\<close>

record Player =
  health :: real
  rotationSpeed :: real
  lookVerticalMin :: real
  lookVerticalMax :: real
  currentLookVertical :: real
  playerBody_rotation_y :: real
  camera_rotation_x :: real
  weapons :: "AnyWeapon list"
  currentWeaponIndex :: int
  weaponContainer :: "nat list"
  ammoCounter :: "(ammo_text \<times> ammo_text) option"
  console :: "log_line list"

definition addWeapon :: "AnyWeapon \<Rightarrow> Player \<Rightarrow> Player" where
  "addWeapon weapon p = p\<lparr>weapons := weapons p @ [weapon]\<rparr>"

definition getCurrentWeapon :: "Player \<Rightarrow> AnyWeapon option" where
  \<comment> \<open>\<open>None\<close> stands for \<open>null\<close> and for the \<open>undefined\<close> of an index outside the array\<close>
  "getCurrentWeapon p =
     (if length (weapons p) = 0 then None
      else if 0 \<le> currentWeaponIndex p \<and> currentWeaponIndex p < int (length (weapons p))
           then Some (weapons p ! nat (currentWeaponIndex p))
           else None)"

definition updateAmmoUI :: "ammo_text \<Rightarrow> ammo_text \<Rightarrow> Player \<Rightarrow> Player" where
  "updateAmmoUI current reserve p =
     p\<lparr>console := console p @ [AmmoLine current reserve],
       ammoCounter := Some (current, reserve)\<rparr>"

fun removeChildren :: "nat list \<Rightarrow> nat list" where
  \<comment> \<open>\<open>while (children.length > 0) remove(children[0])\<close>\<close>
  "removeChildren [] = []"
| "removeChildren (child # children) = removeChildren children"

definition equipWeapon :: "int \<Rightarrow> Player \<Rightarrow> bool \<times> Player" where
  "equipWeapon index p =
     (if index < 0 \<or> index \<ge> int (length (weapons p)) then (False, p)
      else
        (let p1 = p\<lparr>weaponContainer := removeChildren (weaponContainer p)\<rparr>;
             p2 = p1\<lparr>currentWeaponIndex := index\<rparr>
         in case getCurrentWeapon p2 of
              None \<Rightarrow> (False, p2)
            | Some weaponToEquip \<Rightarrow>
                (let p3 = p2\<lparr>weapons :=
                                (weapons p2)[nat index := weapon_attachTo (0, 0, 0) weaponToEquip],
                              weaponContainer :=
                                weaponContainer p2 @ [weapon_model weaponToEquip]\<rparr>
                 in (True,
                     case weaponToEquip of
                       Ranged w \<Rightarrow>
                         updateAmmoUI (AmmoNumber (ammo_current w))
                           (AmmoNumber (ammo_reserve w)) p3
                     | Melee w \<Rightarrow> updateAmmoUI AmmoDash AmmoDash p3))))"

definition js_rem :: "int \<Rightarrow> int \<Rightarrow> int" where
  \<comment> \<open>the operator \<open>%\<close> on integers: the remainder takes the sign of the dividend\<close>
  "js_rem a b = (if 0 \<le> a then a mod \<bar>b\<bar> else - ((- a) mod \<bar>b\<bar>))"

definition nextWeapon :: "Player \<Rightarrow> bool \<times> Player" where
  "nextWeapon p =
     (if length (weapons p) \<le> 1 then (False, p)
      else equipWeapon (js_rem (currentWeaponIndex p + 1) (int (length (weapons p)))) p)"

definition previousWeapon :: "Player \<Rightarrow> bool \<times> Player" where
  "previousWeapon p =
     (if length (weapons p) \<le> 1 then (False, p)
      else equipWeapon
             (js_rem (currentWeaponIndex p - 1 + int (length (weapons p)))
                (int (length (weapons p)))) p)"

definition updateLook :: "real \<Rightarrow> real \<Rightarrow> real \<Rightarrow> Player \<Rightarrow> Player" where
  "updateLook deltaX deltaY deltaTime p =
     (let p1 = (if deltaX \<noteq> 0
                then p\<lparr>playerBody_rotation_y :=
                         playerBody_rotation_y p - deltaX * rotationSpeed p * deltaTime\<rparr>
                else p)
      in if deltaY \<noteq> 0 then
           (let p2 = p1\<lparr>currentLookVertical :=
                          currentLookVertical p1 + deltaY * rotationSpeed p1 * deltaTime\<rparr>;
                p3 = p2\<lparr>currentLookVertical :=
                          max (lookVerticalMin p2)
                              (min (lookVerticalMax p2) (currentLookVertical p2))\<rparr>
            in p3\<lparr>camera_rotation_x := currentLookVertical p3\<rparr>)
         else p1)"

definition takeDamage :: "real \<Rightarrow> Player \<Rightarrow> Player" where
  "takeDamage amount p =
     (let p1 = p\<lparr>health := health p - amount\<rparr>
      in if health p1 \<le> 0 then p1\<lparr>console := console p1 @ [PlayerDied]\<rparr> else p1)"

text \<open>
  The constructor and \<open>initializeWeapons\<close>. \<open>camx\<close> is the \<open>rotation.x\<close> of the camera
  that the caller passes in; the weapon models get the handles \<open>0\<close> to \<open>4\<close>.
\<close>

definition initializeWeapons :: "Player \<Rightarrow> Player" where
  "initializeWeapons p =
     (let p = addWeapon (Ranged (RangedWeapon_new 0
                (no_params\<lparr>p_name := Some ''Assault Rifle'', p_damage := Some 20,
                   p_cooldown := Some 0.1, p_range := Some 100, p_startAmmo := Some 30,
                   p_maxAmmo := Some 30, p_reserveAmmo := Some 90, p_reloadTime := Some 2.0,
                   p_accuracy := Some 0.9\<rparr>))) p;
          p = addWeapon (Ranged (RangedWeapon_new 1
                (no_params\<lparr>p_name := Some ''Shotgun'', p_damage := Some 80,
                   p_cooldown := Some 0.8, p_range := Some 20, p_startAmmo := Some 8,
                   p_maxAmmo := Some 8, p_reserveAmmo := Some 24, p_reloadTime := Some 2.5,
                   p_accuracy := Some 0.7\<rparr>))) p;
          p = addWeapon (Ranged (RangedWeapon_new 2
                (no_params\<lparr>p_name := Some ''Sniper Rifle'', p_damage := Some 120,
                   p_cooldown := Some 1.2, p_range := Some 200, p_startAmmo := Some 5,
                   p_maxAmmo := Some 5, p_reserveAmmo := Some 15, p_reloadTime := Some 3.0,
                   p_accuracy := Some 0.99\<rparr>))) p;
          p = addWeapon (Melee (MeleeWeapon_new 3
                (no_params\<lparr>p_name := Some ''Combat Knife'', p_damage := Some 40,
                   p_cooldown := Some 0.5, p_range := Some 2.0, p_attackType := Some ''thrust'',
                   p_knockback := Some 1.0\<rparr>))) p;
          p = addWeapon (Melee (MeleeWeapon_new 4
                (no_params\<lparr>p_name := Some ''Fire Axe'', p_damage := Some 75,
                   p_cooldown := Some 1.2, p_range := Some 2.5, p_attackType := Some ''swing'',
                   p_knockback := Some 3.0\<rparr>))) p
      in snd (equipWeapon 0 p))"

definition Player_new :: "real \<Rightarrow> Player" where
  "Player_new camx =
     initializeWeapons
       \<lparr>health = 100, rotationSpeed = 1.5,
        lookVerticalMin = - pi * 0.4, lookVerticalMax = pi * 0.4,
        currentLookVertical = 0, playerBody_rotation_y = 0, camera_rotation_x = camx,
        weapons = [], currentWeaponIndex = 0, weaponContainer = [],
        ammoCounter = None, console = []\<rparr>"

text \<open>Sequences of calls on one player.\<close>

datatype player_call =
    TakeDamage real
  | UpdateLook real real real
  | EquipWeapon int
  | NextWeapon
  | PreviousWeapon

fun player_step :: "Player \<Rightarrow> player_call \<Rightarrow> Player" where
  "player_step p (TakeDamage amount) = takeDamage amount p"
| "player_step p (UpdateLook deltaX deltaY deltaTime) = updateLook deltaX deltaY deltaTime p"
| "player_step p (EquipWeapon index) = snd (equipWeapon index p)"
| "player_step p NextWeapon = snd (nextWeapon p)"
| "player_step p PreviousWeapon = snd (previousWeapon p)"

definition player_run :: "Player \<Rightarrow> player_call list \<Rightarrow> Player" where
  "player_run p calls = foldl player_step p calls"

fun nonnegative_damage :: "player_call \<Rightarrow> bool" where
  "nonnegative_damage (TakeDamage amount) = (0 \<le> amount)"
| "nonnegative_damage (UpdateLook deltaX deltaY deltaTime) = True"
| "nonnegative_damage (EquipWeapon index) = True"
| "nonnegative_damage NextWeapon = True"
| "nonnegative_damage PreviousWeapon = True"

text \<open>
  The look state is in order: the limits are the constructor's, the pitch lies between
  them, and the camera carries the pitch or still its own initial rotation \<open>camx\<close>.
\<close>

definition look_ok :: "real \<Rightarrow> Player \<Rightarrow> bool" where
  "look_ok camx p \<longleftrightarrow>
     lookVerticalMin p = - pi * 0.4 \<and> lookVerticalMax p = pi * 0.4 \<and>
     lookVerticalMin p \<le> currentLookVertical p \<and>
     currentLookVertical p \<le> lookVerticalMax p \<and>
     (camera_rotation_x p = camx \<or> camera_rotation_x p = currentLookVertical p)"

subsection \<open>The health bar (updateHealthUI of main.js) and the orchestrator (class GameManager)\<close>

definition updateHealthUI :: "real \<Rightarrow> real" where
  \<comment> \<open>the percentage written to the width of the health bar\<close>
  "updateHealthUI h = (let healthPercent = max 0 h / 100 in healthPercent * 100)"

text \<open>
  The orchestrator counts the player's deaths in \<open>handlePlayerDeath\<close>, the handler it
  passes as \<open>onDeath\<close> when it creates the player (the respawn timer is not modelled).
  It damages the player in \<open>handleProjectileHit\<close> when the target is the player.
\<close>

record GameManager =
  player :: Player
  deaths :: int
  killFeed :: "string list"

definition handlePlayerDeath :: "GameManager \<Rightarrow> GameManager" where
  "handlePlayerDeath gm =
     gm\<lparr>deaths := deaths gm + 1, killFeed := killFeed gm @ [''You were killed!'']\<rparr>"

definition handleProjectileHit_player :: "real \<Rightarrow> GameManager \<Rightarrow> GameManager" where
  \<comment> \<open>the branch \<open>target === this.player\<close>: \<open>this.player.takeDamage(projectile.damage)\<close>\<close>
  "handleProjectileHit_player projectile_damage gm =
     gm\<lparr>player := takeDamage projectile_damage (player gm)\<rparr>"

section \<open>Properties of the EffectsManager\<close>

lemma live_splice1:
  assumes "k < length (activeEffects s)"
  shows "int (live ty (s\<lparr>activeEffects := splice1 k (activeEffects s)\<rparr>)) =
         int (live ty s) - (if type (activeEffects s ! k) = ty then 1 else 0)"
proof -
  let ?xs = "activeEffects s"
  have "?xs = take k ?xs @ (?xs ! k) # drop (Suc k) ?xs"
    using assms by (simp add: id_take_nth_drop)
  then have "filter (\<lambda>e. type e = ty) ?xs =
      filter (\<lambda>e. type e = ty) (take k ?xs) @
      filter (\<lambda>e. type e = ty) ((?xs ! k) # drop (Suc k) ?xs)"
    by (metis filter_append)
  then show ?thesis
    by (simp add: live_def splice1_def)
qed

lemma findOldest_result:
  "findOldest ty es i (oi, oa) = (oi', oa') \<Longrightarrow>
     oa \<le> oa' \<and> (\<forall>e \<in> set es. type e = ty \<longrightarrow> age e \<le> oa') \<and>
     ((oi' = oi \<and> oa' = oa) \<or>
      (int i \<le> oi' \<and> oi' < int i + int (length es) \<and>
       type (es ! (nat oi' - i)) = ty \<and> age (es ! (nat oi' - i)) = oa'))"
proof (induction es arbitrary: i oi oa)
  case Nil
  then show ?case by simp
next
  case (Cons e es)
  show ?case
  proof (cases "type e = ty \<and> age e > oa")
    case True
    with Cons.prems have r: "findOldest ty es (Suc i) (int i, age e) = (oi', oa')" by simp
    from Cons.IH[OF r] have
      le: "age e \<le> oa'" and
      all: "\<forall>x \<in> set es. type x = ty \<longrightarrow> age x \<le> oa'" and
      dj: "(oi' = int i \<and> oa' = age e) \<or>
           (int (Suc i) \<le> oi' \<and> oi' < int (Suc i) + int (length es) \<and>
            type (es ! (nat oi' - Suc i)) = ty \<and> age (es ! (nat oi' - Suc i)) = oa')"
      by auto
    from dj have "int i \<le> oi' \<and> oi' < int i + int (length (e # es)) \<and>
       type ((e # es) ! (nat oi' - i)) = ty \<and> age ((e # es) ! (nat oi' - i)) = oa'"
    proof
      assume "oi' = int i \<and> oa' = age e"
      with True show ?thesis by simp
    next
      assume h: "int (Suc i) \<le> oi' \<and> oi' < int (Suc i) + int (length es) \<and>
            type (es ! (nat oi' - Suc i)) = ty \<and> age (es ! (nat oi' - Suc i)) = oa'"
      then have "nat oi' - i = Suc (nat oi' - Suc i)" by linarith
      with h show ?thesis by simp
    qed
    with True le all show ?thesis by auto
  next
    case False
    with Cons.prems have r: "findOldest ty es (Suc i) (oi, oa) = (oi', oa')" by auto
    from Cons.IH[OF r] have
      le: "oa \<le> oa'" and
      all: "\<forall>x \<in> set es. type x = ty \<longrightarrow> age x \<le> oa'" and
      dj: "(oi' = oi \<and> oa' = oa) \<or>
           (int (Suc i) \<le> oi' \<and> oi' < int (Suc i) + int (length es) \<and>
            type (es ! (nat oi' - Suc i)) = ty \<and> age (es ! (nat oi' - Suc i)) = oa')"
      by auto
    from dj have "(oi' = oi \<and> oa' = oa) \<or> (int i \<le> oi' \<and> oi' < int i + int (length (e # es)) \<and>
       type ((e # es) ! (nat oi' - i)) = ty \<and> age ((e # es) ! (nat oi' - i)) = oa')"
    proof
      assume "oi' = oi \<and> oa' = oa"
      then show ?thesis by simp
    next
      assume h: "int (Suc i) \<le> oi' \<and> oi' < int (Suc i) + int (length es) \<and>
            type (es ! (nat oi' - Suc i)) = ty \<and> age (es ! (nat oi' - Suc i)) = oa'"
      then have "nat oi' - i = Suc (nat oi' - Suc i)" by linarith
      with h show ?thesis by simp
    qed
    moreover have "type e = ty \<longrightarrow> age e \<le> oa'" using False le by auto
    ultimately show ?thesis using le all by auto
  qed
qed

lemma findOldest_found:
  assumes "0 \<le> fst (findOldest ty es 0 (- 1, 0))"
  shows "nat (fst (findOldest ty es 0 (- 1, 0))) < length es \<and>
         type (es ! nat (fst (findOldest ty es 0 (- 1, 0)))) = ty"
proof -
  obtain oi' oa' where r: "findOldest ty es 0 (- 1, 0) = (oi', oa')"
    by (cases "findOldest ty es 0 (- 1, 0)")
  from findOldest_result[OF r] assms r show ?thesis by auto
qed

lemma counts_ok_removeOldestEffect:
  assumes "counts_ok s"
  shows "counts_ok (removeOldestEffect ty s)"
proof (cases "0 \<le> fst (findOldest ty (activeEffects s) 0 (- 1, 0))")
  case False
  then show ?thesis using assms by (simp add: removeOldestEffect_def)
next
  case True
  let ?k = "nat (fst (findOldest ty (activeEffects s) 0 (- 1, 0)))"
  from findOldest_found[OF True]
  have k: "?k < length (activeEffects s)" and t: "type (activeEffects s ! ?k) = ty"
    by simp_all
  have p: "int (live ''particle'' (s\<lparr>activeEffects := splice1 ?k (activeEffects s)\<rparr>)) =
           int (live ''particle'' s) - (if ty = ''particle'' then 1 else 0)"
    using live_splice1[OF k, of "''particle''"] t by simp
  have d: "int (live ''decal'' (s\<lparr>activeEffects := splice1 ?k (activeEffects s)\<rparr>)) =
           int (live ''decal'' s) - (if ty = ''decal'' then 1 else 0)"
    using live_splice1[OF k, of "''decal''"] t by simp
  from True assms p d show ?thesis
    by (simp add: removeOldestEffect_def counts_ok_def live_def Let_def)
qed

lemma counts_ok_createBloodParticles:
  assumes "counts_ok s"
  shows "counts_ok (createBloodParticles s)"
proof -
  let ?s = "if particleCount s \<ge> maxParticleSystems s
            then removeOldestEffect ''particle'' s else s"
  have "counts_ok ?s" using assms counts_ok_removeOldestEffect by simp
  then show ?thesis
    by (simp add: createBloodParticles_def counts_ok_def live_def Let_def)
qed

lemma counts_ok_createBloodSplatter:
  assumes "counts_ok s"
  shows "counts_ok (createBloodSplatter s)"
proof -
  let ?s = "if decalCount s \<ge> maxDecals s
            then removeOldestEffect ''decal'' s else s"
  have "counts_ok ?s" using assms counts_ok_removeOldestEffect by simp
  then show ?thesis
    by (simp add: createBloodSplatter_def counts_ok_def live_def Let_def)
qed

lemma counts_ok_funpow_splatter:
  "counts_ok s \<Longrightarrow> counts_ok ((createBloodSplatter ^^ n) s)"
  by (induction n) (simp_all add: counts_ok_createBloodSplatter)

lemma counts_ok_createBloodImpact:
  "counts_ok s \<Longrightarrow> counts_ok (createBloodImpact intensity s)"
  by (simp add: createBloodImpact_def Let_def counts_ok_createBloodParticles
      counts_ok_createBloodSplatter counts_ok_funpow_splatter)

lemma live_list_update:
  assumes "i < length (activeEffects s)" and "type e = type (activeEffects s ! i)"
  shows "live ty (s\<lparr>activeEffects := (activeEffects s)[i := e]\<rparr>) = live ty s"
proof -
  let ?xs = "activeEffects s"
  let ?P = "\<lambda>e. type e = ty"
  have a: "?xs = take i ?xs @ (?xs ! i) # drop (Suc i) ?xs"
    using assms(1) by (simp add: id_take_nth_drop)
  have b: "?xs[i := e] = take i ?xs @ e # drop (Suc i) ?xs"
    using assms(1) by (simp add: upd_conv_take_nth_drop)
  have "length (filter ?P ?xs) =
        length (filter ?P (take i ?xs)) + length (filter ?P ((?xs ! i) # drop (Suc i) ?xs))"
    by (metis a filter_append length_append)
  moreover have "length (filter ?P (?xs[i := e])) =
        length (filter ?P (take i ?xs)) + length (filter ?P (e # drop (Suc i) ?xs))"
    by (simp add: b)
  ultimately show ?thesis
    using assms(2) by (simp add: live_def)
qed

lemma counts_ok_update_at:
  assumes "counts_ok s" and "i < length (activeEffects s)"
  shows "counts_ok (update_at deltaTime i s)"
proof (cases "age (activeEffects s ! i) + deltaTime \<ge> lifetime (activeEffects s ! i)")
  case True
  have p: "int (live ''particle'' (s\<lparr>activeEffects := splice1 i (activeEffects s)\<rparr>)) =
           int (live ''particle'' s) -
             (if type (activeEffects s ! i) = ''particle'' then 1 else 0)"
    by (rule live_splice1[OF assms(2)])
  have d: "int (live ''decal'' (s\<lparr>activeEffects := splice1 i (activeEffects s)\<rparr>)) =
           int (live ''decal'' s) -
             (if type (activeEffects s ! i) = ''decal'' then 1 else 0)"
    by (rule live_splice1[OF assms(2)])
  from True assms(1) p d show ?thesis
    by (simp add: update_at_def Effect_update_def counts_ok_def live_def Let_def)
next
  case False
  let ?e = "(activeEffects s ! i)\<lparr>age := age (activeEffects s ! i) + deltaTime\<rparr>"
  have t: "type ?e = type (activeEffects s ! i)" by simp
  have "live ty (s\<lparr>activeEffects := (activeEffects s)[i := ?e]\<rparr>) = live ty s" for ty
    by (rule live_list_update[OF assms(2) t])
  with False assms(1) show ?thesis
    by (simp add: update_at_def Effect_update_def counts_ok_def live_def Let_def)
qed

lemma length_update_at:
  assumes "i < length (activeEffects s)"
  shows "i \<le> length (activeEffects (update_at deltaTime i s))"
  using assms by (auto simp add: update_at_def Effect_update_def Let_def splice1_def)

lemma counts_ok_update_loop:
  "counts_ok s \<Longrightarrow> i \<le> length (activeEffects s) \<Longrightarrow> counts_ok (update_loop deltaTime i s)"
proof (induction i arbitrary: s)
  case 0
  then show ?case by simp
next
  case (Suc i)
  from Suc.prems have lt: "i < length (activeEffects s)" by simp
  have "counts_ok (update_at deltaTime i s)"
    using Suc.prems(1) lt by (rule counts_ok_update_at)
  moreover have "i \<le> length (activeEffects (update_at deltaTime i s))"
    using lt by (rule length_update_at)
  ultimately show ?case using Suc.IH by simp
qed

lemma counts_ok_update:
  "counts_ok s \<Longrightarrow> counts_ok (EffectsManager_update deltaTime s)"
  by (simp add: EffectsManager_update_def counts_ok_update_loop)

lemma counts_ok_clearAllEffects: "counts_ok (clearAllEffects s)"
  by (simp add: clearAllEffects_def counts_ok_def live_def)

lemma counts_ok_new: "counts_ok (EffectsManager_new sc)"
  by (simp add: EffectsManager_new_def counts_ok_def live_def)

lemma counts_ok_step: "counts_ok s \<Longrightarrow> counts_ok (effects_step s c)"
  by (cases c)
    (simp_all add: counts_ok_createBloodParticles counts_ok_createBloodSplatter
      counts_ok_createBloodImpact counts_ok_removeOldestEffect counts_ok_update
      counts_ok_clearAllEffects)

lemma counts_ok_foldl: "counts_ok s \<Longrightarrow> counts_ok (foldl effects_step s calls)"
  by (induction calls arbitrary: s) (simp_all add: counts_ok_step)

text \<open>
  C9. After every sequence of calls on a freshly constructed EffectsManager (spawns of
  either kind, \<open>createBloodImpact\<close>, \<open>removeOldestEffect\<close>, \<open>update\<close>,
  \<open>clearAllEffects\<close>), \<open>particleCount\<close> is the number of entries of \<open>activeEffects\<close>
  of type \<open>'particle'\<close> and \<open>decalCount\<close> the number of entries of type \<open>'decal'\<close>.
\<close>

theorem counters_match_activeEffects:
  "particleCount (effects_run (EffectsManager_new sc) calls) =
     int (length (filter (\<lambda>effect. type effect = ''particle'')
            (activeEffects (effects_run (EffectsManager_new sc) calls)))) \<and>
   decalCount (effects_run (EffectsManager_new sc) calls) =
     int (length (filter (\<lambda>effect. type effect = ''decal'')
            (activeEffects (effects_run (EffectsManager_new sc) calls))))"
proof -
  have "counts_ok (effects_run (EffectsManager_new sc) calls)"
    unfolding effects_run_def by (rule counts_ok_foldl[OF counts_ok_new])
  then show ?thesis by (simp add: counts_ok_def live_def)
qed

text \<open>
  Effects that were never aged: the search of \<open>removeOldestEffect\<close> starts from
  \<open>oldestAge = 0\<close> and compares strictly, so it finds none of them.
\<close>

lemma findOldest_none:
  "(\<And>e. e \<in> set es \<Longrightarrow> age e \<le> oa) \<Longrightarrow> findOldest ty es i (oi, oa) = (oi, oa)"
proof (induction es arbitrary: i)
  case Nil
  then show ?case by simp
next
  case (Cons e es)
  have "\<not> age e > oa" using Cons.prems[of e] by simp
  moreover have "findOldest ty es (Suc i) (oi, oa) = (oi, oa)"
    using Cons.IH Cons.prems by simp
  ultimately show ?case by simp
qed

lemma removeOldestEffect_unaged:
  assumes "\<And>e. e \<in> set (activeEffects s) \<Longrightarrow> age e \<le> 0"
  shows "removeOldestEffect ty s = s"
proof -
  have "findOldest ty (activeEffects s) 0 (- 1, 0) = (- 1, 0)"
    using assms by (rule findOldest_none)
  then show ?thesis by (simp add: removeOldestEffect_def)
qed

lemma createBloodParticles_unaged:
  assumes "\<And>e. e \<in> set (activeEffects s) \<Longrightarrow> age e \<le> 0"
  shows "particleCount (createBloodParticles s) = particleCount s + 1"
    and "live ''particle'' (createBloodParticles s) = Suc (live ''particle'' s)"
    and "maxParticleSystems (createBloodParticles s) = maxParticleSystems s"
    and "e \<in> set (activeEffects (createBloodParticles s)) \<Longrightarrow> age e \<le> 0"
proof -
  have r: "removeOldestEffect ''particle'' s = s"
    using assms by (rule removeOldestEffect_unaged)
  have c: "createBloodParticles s =
      s\<lparr>scene := scene s @ [nextObject s],
        activeEffects := activeEffects s @
          [\<lparr>type = ''particle'', object = nextObject s, lifetime = 2.0, age = 0\<rparr>],
        particleCount := particleCount s + 1,
        nextObject := Suc (nextObject s)\<rparr>"
    by (simp add: createBloodParticles_def r Let_def)
  show "particleCount (createBloodParticles s) = particleCount s + 1"
    by (simp add: c)
  show "live ''particle'' (createBloodParticles s) = Suc (live ''particle'' s)"
    by (simp add: c live_def)
  show "maxParticleSystems (createBloodParticles s) = maxParticleSystems s"
    by (simp add: c)
  show "e \<in> set (activeEffects (createBloodParticles s)) \<Longrightarrow> age e \<le> 0"
    using assms by (auto simp add: c)
qed

lemma spawn_without_update:
  "particleCount ((createBloodParticles ^^ n) (EffectsManager_new sc)) = int n \<and>
   live ''particle'' ((createBloodParticles ^^ n) (EffectsManager_new sc)) = n \<and>
   maxParticleSystems ((createBloodParticles ^^ n) (EffectsManager_new sc)) = 20 \<and>
   (\<forall>e \<in> set (activeEffects ((createBloodParticles ^^ n) (EffectsManager_new sc))).
      age e \<le> 0)"
proof (induction n)
  case 0
  show ?case by (simp add: EffectsManager_new_def live_def)
next
  case (Suc n)
  let ?s = "(createBloodParticles ^^ n) (EffectsManager_new sc)"
  have u: "\<And>e. e \<in> set (activeEffects ?s) \<Longrightarrow> age e \<le> 0" using Suc by blast
  show ?case
    using createBloodParticles_unaged[of ?s, OF u] Suc by simp
qed

text \<open>
  Once an effect of the type has aged, \<open>removeOldestEffect\<close> removes exactly one
  effect of that type, one of greatest age, and a spawn at the cap stays at the cap.
\<close>

lemma removeOldestEffect_evicts_oldest:
  assumes "e0 \<in> set (activeEffects s)" and "type e0 = ty" and "0 < age e0"
  shows "\<exists>k < length (activeEffects s).
           type (activeEffects s ! k) = ty \<and>
           (\<forall>e \<in> set (activeEffects s). type e = ty \<longrightarrow> age e \<le> age (activeEffects s ! k)) \<and>
           activeEffects (removeOldestEffect ty s) = splice1 k (activeEffects s)"
proof -
  obtain oi' oa' where r: "findOldest ty (activeEffects s) 0 (- 1, 0) = (oi', oa')"
    by (cases "findOldest ty (activeEffects s) 0 (- 1, 0)")
  from findOldest_result[OF r] have
    all: "\<forall>e \<in> set (activeEffects s). type e = ty \<longrightarrow> age e \<le> oa'" and
    dj: "(oi' = - 1 \<and> oa' = 0) \<or>
         (0 \<le> oi' \<and> oi' < int (length (activeEffects s)) \<and>
          type (activeEffects s ! nat oi') = ty \<and> age (activeEffects s ! nat oi') = oa')"
    by auto
  from all assms have "0 < oa'" by fastforce
  with dj have f: "0 \<le> oi'" "nat oi' < length (activeEffects s)"
    "type (activeEffects s ! nat oi') = ty" "age (activeEffects s ! nat oi') = oa'"
    by auto
  have "activeEffects (removeOldestEffect ty s) = splice1 (nat oi') (activeEffects s)"
    using r f(1) by (simp add: removeOldestEffect_def Let_def)
  with f all show ?thesis by auto
qed

lemma createBloodParticles_keeps_cap:
  assumes "particleCount s \<le> maxParticleSystems s"
    and "e0 \<in> set (activeEffects s)" and "type e0 = ''particle''" and "0 < age e0"
  shows "particleCount (createBloodParticles s) \<le> maxParticleSystems (createBloodParticles s)"
proof -
  obtain oi' oa' where r: "findOldest ''particle'' (activeEffects s) 0 (- 1, 0) = (oi', oa')"
    by (cases "findOldest ''particle'' (activeEffects s) 0 (- 1, 0)")
  from findOldest_result[OF r] have
    all: "\<forall>e \<in> set (activeEffects s). type e = ''particle'' \<longrightarrow> age e \<le> oa'" and
    dj: "(oi' = - 1 \<and> oa' = 0) \<or> 0 \<le> oi'"
    by auto
  from all assms(2-4) have "0 < oa'" by fastforce
  with dj have "0 \<le> oi'" by auto
  then have "particleCount (removeOldestEffect ''particle'' s) = particleCount s - 1"
    and "maxParticleSystems (removeOldestEffect ''particle'' s) = maxParticleSystems s"
    using r by (simp_all add: removeOldestEffect_def Let_def)
  then show ?thesis
    using assms(1) by (simp add: createBloodParticles_def Let_def)
qed

text \<open>
  C1 (the code at the input of the spec's own scenario). Twenty-one calls of
  \<open>createBloodParticles\<close> on a fresh manager with no \<open>update\<close> in between leave
  twenty-one live particle systems, above the cap of twenty: at the twenty-first call
  every tracked effect still has age \<open>0\<close>, \<open>removeOldestEffect\<close> removes nothing, and
  the spawn goes ahead.
\<close>

theorem twenty_one_spawns_exceed_cap:
  "particleCount ((createBloodParticles ^^ 21) (EffectsManager_new [])) = 21 \<and>
   length (filter (\<lambda>effect. type effect = ''particle'')
     (activeEffects ((createBloodParticles ^^ 21) (EffectsManager_new [])))) = 21 \<and>
   maxParticleSystems ((createBloodParticles ^^ 21) (EffectsManager_new [])) = 20"
  using spawn_without_update[of 21 "[]"] by (simp add: live_def)

section \<open>Properties of the weapons\<close>

subsection \<open>Rounding to a double\<close>

lemma powi2_plus1: "(2::real) powi (k + 1) = 2 * 2 powi k"
  using power_int_add[of "2::real" k 1] by simp

lemma up_spec:
  "1 \<le> x \<Longrightarrow> e0 \<le> 1024 \<Longrightarrow>
     e0 \<le> exponent_up x e0 \<and> exponent_up x e0 \<le> 1024 \<and>
     2 powi (exponent_up x e0 - e0) \<le> x \<and>
     (exponent_up x e0 < 1024 \<longrightarrow> x < 2 powi (exponent_up x e0 - e0 + 1))"
proof (induction x e0 rule: exponent_up.induct)
  case (1 x e)
  show ?case
  proof (cases "x < 2 \<or> 1024 \<le> e")
    case True
    then have "exponent_up x e = e" by (simp add: exponent_up.simps)
    with True "1.prems" show ?thesis by auto
  next
    case False
    then have u: "exponent_up x e = exponent_up (x / 2) (e + 1)"
      by (simp add: exponent_up.simps)
    from False "1.prems" have "1 \<le> x / 2" "e + 1 \<le> 1024" by auto
    from "1.IH"[OF False this] have ih:
      "e + 1 \<le> exponent_up x e" "exponent_up x e \<le> 1024"
      "2 powi (exponent_up x e - (e + 1)) \<le> x / 2"
      "exponent_up x e < 1024 \<longrightarrow> x / 2 < 2 powi (exponent_up x e - (e + 1) + 1)"
      by (simp_all add: u)
    have p: "(2::real) powi (exponent_up x e - e) = 2 * 2 powi (exponent_up x e - (e + 1))"
      using power_int_add[of "2::real" 1 "exponent_up x e - (e + 1)"] by simp
    have p2: "(2::real) powi (exponent_up x e - e + 1) =
              2 * 2 powi (exponent_up x e - (e + 1) + 1)"
      using power_int_add[of "2::real" 1 "exponent_up x e - (e + 1) + 1"]
      by (simp add: add.commute)
    from ih p p2 show ?thesis by auto
  qed
qed

lemma down_spec:
  "0 < x \<Longrightarrow> x < 2 \<Longrightarrow> - 1022 \<le> e0 \<Longrightarrow>
     - 1022 \<le> exponent_down x e0 \<and> exponent_down x e0 \<le> e0 \<and>
     x * 2 powi (e0 - exponent_down x e0) < 2 \<and>
     (- 1022 < exponent_down x e0 \<longrightarrow> 1 \<le> x * 2 powi (e0 - exponent_down x e0))"
proof (induction x e0 rule: exponent_down.induct)
  case (1 x e)
  show ?case
  proof (cases "1 \<le> x \<or> e \<le> - 1022")
    case True
    then have "exponent_down x e = e" by (simp add: exponent_down.simps)
    with True "1.prems" show ?thesis by auto
  next
    case False
    then have u: "exponent_down x e = exponent_down (x * 2) (e - 1)"
      by (simp add: exponent_down.simps)
    from False "1.prems" have "0 < x * 2" "x * 2 < 2" "- 1022 \<le> e - 1" by auto
    from "1.IH"[OF False this] have ih:
      "- 1022 \<le> exponent_down x e" "exponent_down x e \<le> e - 1"
      "x * 2 * 2 powi (e - 1 - exponent_down x e) < 2"
      "- 1022 < exponent_down x e \<longrightarrow> 1 \<le> x * 2 * 2 powi (e - 1 - exponent_down x e)"
      by (simp_all add: u)
    have p: "(2::real) powi (e - exponent_down x e) = 2 * 2 powi (e - 1 - exponent_down x e)"
      using power_int_add[of "2::real" 1 "e - 1 - exponent_down x e"] by simp
    from ih p show ?thesis by (auto simp add: mult.assoc)
  qed
qed

lemma exponent_spec:
  assumes "0 < a"
  shows "- 1022 \<le> exponent a \<and> exponent a \<le> 1024 \<and>
         (- 1022 < exponent a \<longrightarrow> 2 powi exponent a \<le> a) \<and>
         (exponent a < 1024 \<longrightarrow> a < 2 powi (exponent a + 1))"
proof (cases "1 \<le> a")
  case True
  from up_spec[OF True, of 0] show ?thesis
    using True by (auto simp add: exponent_def)
next
  case False
  with assms have "0 < a" "a < 2" by auto
  from down_spec[OF this, of 0] have d:
    "- 1022 \<le> exponent_down a 0" "exponent_down a 0 \<le> 0"
    "a * 2 powi (- exponent_down a 0) < 2"
    "- 1022 < exponent_down a 0 \<longrightarrow> 1 \<le> a * 2 powi (- exponent_down a 0)"
    by simp_all
  let ?e = "exponent_down a 0"
  have pos: "(0::real) < 2 powi ?e" by simp
  have inv: "(2::real) powi (- ?e) = 1 / 2 powi ?e" by (simp add: power_int_minus field_simps)
  have lo: "- 1022 < ?e \<longrightarrow> 2 powi ?e \<le> a"
    using d(4) pos by (simp add: inv field_simps)
  have "a < 2 * 2 powi ?e" using d(3) pos by (simp add: inv field_simps)
  moreover have "(2::real) powi (?e + 1) = 2 * 2 powi ?e"
    by (rule powi2_plus1)
  ultimately have hi: "a < 2 powi (?e + 1)" by simp
  from d lo hi False show ?thesis by (simp add: exponent_def)
qed

lemma powi2_mono: "k \<le> l \<Longrightarrow> (2::real) powi k \<le> 2 powi l"
  by (rule power_int_increasing) simp_all

lemma exponent_eq:
  assumes "0 < a" and "- 1022 \<le> e" and "e \<le> 1023"
    and "- 1022 < e \<longrightarrow> 2 powi e \<le> a" and "a < 2 powi (e + 1)"
  shows "exponent a = e"
proof (rule ccontr)
  assume ne: "exponent a \<noteq> e"
  note s = exponent_spec[OF assms(1)]
  show False
  proof (cases "exponent a < e")
    case True
    then have "exponent a < 1024" using assms(3) by simp
    with s have "a < 2 powi (exponent a + 1)" by simp
    also have "\<dots> \<le> 2 powi e" using True by (intro powi2_mono) simp
    finally have "a < 2 powi e" .
    moreover have "- 1022 < e" using True s by linarith
    ultimately show False using assms(4) by simp
  next
    case False
    with ne have g: "e < exponent a" by simp
    then have "- 1022 < exponent a" using assms(2) by simp
    with s have "2 powi exponent a \<le> a" by simp
    moreover have "(2::real) powi (e + 1) \<le> 2 powi exponent a"
      using g by (intro powi2_mono) simp
    ultimately show False using assms(5) by simp
  qed
qed

lemma round_half_even_of_int [simp]: "round_half_even (of_int n) = n"
  by (simp add: round_half_even_def)

lemma round_half_even_ge: "of_int n \<le> x \<Longrightarrow> n \<le> round_half_even x"
proof -
  assume "of_int n \<le> x"
  then have "n \<le> \<lfloor>x\<rfloor>" by (simp add: le_floor_iff)
  then show ?thesis by (simp add: round_half_even_def Let_def)
qed

lemma round_half_even_le: "x \<le> of_int n \<Longrightarrow> round_half_even x \<le> n"
proof -
  assume a: "x \<le> of_int n"
  show ?thesis
  proof (cases "x = of_int n")
    case True
    then show ?thesis by simp
  next
    case False
    with a have "x < of_int n" by simp
    then have "\<lfloor>x\<rfloor> < n" by (simp add: floor_less_iff)
    then show ?thesis by (simp add: round_half_even_def Let_def)
  qed
qed


lemma round_half_even_abs_le: "\<bar>t\<bar> \<le> of_int n \<Longrightarrow> \<bar>round_half_even t\<bar> \<le> n"
proof -
  assume a: "\<bar>t\<bar> \<le> of_int n"
  then have "t \<le> of_int n" "of_int (- n) \<le> t" by simp_all
  then have "round_half_even t \<le> n" "- n \<le> round_half_even t"
    by (simp_all only: round_half_even_le round_half_even_ge)
  then show ?thesis by simp
qed

lemma round_half_even_abs_ge: "of_int n \<le> \<bar>t\<bar> \<Longrightarrow> n \<le> \<bar>round_half_even t\<bar>"
proof (cases "0 \<le> t")
  case True
  assume "of_int n \<le> \<bar>t\<bar>"
  with True have "of_int n \<le> t" by simp
  then have "n \<le> round_half_even t" by (rule round_half_even_ge)
  then show ?thesis by simp
next
  case False
  assume "of_int n \<le> \<bar>t\<bar>"
  with False have "t \<le> of_int (- n)" by simp
  then have "round_half_even t \<le> - n" by (rule round_half_even_le)
  then show ?thesis by simp
qed

lemma powi2_split52: "(2::real) powi e = 2 ^ 52 * 2 powi (e - 52)"
  using power_int_add[of "2::real" 52 "e - 52"] by simp

lemma fl_Num_unfold:
  assumes "fl x = Num y" and "x \<noteq> 0"
  shows "y = of_int (round_half_even (x / 2 powi (exponent \<bar>x\<bar> - 52))) *
               2 powi (exponent \<bar>x\<bar> - 52)"
    and "y < 2 ^ 1024" and "- (2 ^ 1024) < y"
  using assms by (simp_all add: fl_def Let_def split: if_splits)

lemma fl_at_exponent:
  assumes "y = of_int m * 2 powi (e - 52)" and "y \<noteq> 0" and "exponent \<bar>y\<bar> = e"
    and "y < 2 ^ 1024" and "- (2 ^ 1024) < y"
  shows "fl y = Num y"
proof -
  have "y / 2 powi (e - 52) = of_int m" using assms(1) by simp
  then show ?thesis
    using assms by (simp add: fl_def Let_def)
qed

lemma real_of_int_pow2_le: "2 ^ k \<le> n \<Longrightarrow> (2::real) ^ k \<le> of_int n"
proof -
  assume "2 ^ k \<le> n"
  then have "(of_int (2 ^ k) :: real) \<le> of_int n" by (simp only: of_int_le_iff)
  then show ?thesis by simp
qed

lemma real_of_int_pow2_less: "n < 2 ^ k \<Longrightarrow> (of_int n :: real) < 2 ^ k"
proof -
  assume "n < 2 ^ k"
  then have "(of_int n :: real) < of_int (2 ^ k)" by (simp only: of_int_less_iff)
  then show ?thesis by simp
qed

lemma fl_idem:
  assumes "fl x = Num y"
  shows "fl y = Num y"
proof (cases "x = 0 \<or> y = 0")
  case True
  then show ?thesis using assms by (auto simp add: fl_def)
next
  case False
  then have x0: "x \<noteq> 0" and y0: "y \<noteq> 0" by simp_all
  define e where "e = exponent \<bar>x\<bar>"
  define q :: real where "q = 2 powi (e - 52)"
  define m where "m = round_half_even (x / q)"
  have qpos: "0 < q" by (simp add: q_def)
  from fl_Num_unfold[OF assms x0]
  have y: "y = of_int m * q" and ylt: "y < 2 ^ 1024" and ygt: "- (2 ^ 1024) < y"
    by (simp_all add: m_def q_def e_def)
  have ay: "\<bar>y\<bar> = of_int \<bar>m\<bar> * q" using qpos by (simp add: y abs_mult)
  have aylt: "\<bar>y\<bar> < 2 ^ 1024" using ylt ygt by simp
  have ax: "\<bar>x / q\<bar> = \<bar>x\<bar> / q" using qpos by simp
  have pe: "(2::real) powi e = 2 ^ 52 * q" unfolding q_def by (rule powi2_split52)
  have pe1: "(2::real) powi (e + 1) = 2 ^ 53 * q"
    using powi2_plus1[of e] pe by simp
  note s = exponent_spec[of "\<bar>x\<bar>", folded e_def]
  from x0 s have eb: "- 1022 \<le> e" "e \<le> 1024"
    and lo: "- 1022 < e \<longrightarrow> 2 powi e \<le> \<bar>x\<bar>"
    and hi: "e < 1024 \<longrightarrow> \<bar>x\<bar> < 2 powi (e + 1)"
    by simp_all
  have mlo: "- 1022 < e \<longrightarrow> 2 ^ 52 \<le> \<bar>m\<bar>"
  proof
    assume "- 1022 < e"
    with lo have "2 ^ 52 * q \<le> \<bar>x\<bar>" by (simp add: pe)
    then have "of_int (2 ^ 52) \<le> \<bar>x / q\<bar>" using qpos by (simp add: ax field_simps)
    then show "2 ^ 52 \<le> \<bar>m\<bar>" unfolding m_def by (rule round_half_even_abs_ge)
  qed
  have e1023: "e \<le> 1023"
  proof (rule ccontr)
    assume "\<not> e \<le> 1023"
    with eb have e: "e = 1024" by simp
    with mlo have "2 ^ 52 \<le> \<bar>m\<bar>" by simp
    then have "(2::real) ^ 52 \<le> of_int \<bar>m\<bar>" by (rule real_of_int_pow2_le)
    then have "2 ^ 52 * q \<le> \<bar>y\<bar>" using qpos by (simp add: ay)
    then have "(2::real) powi 1024 \<le> \<bar>y\<bar>" using pe e by simp
    then show False using aylt by simp
  qed
  with hi have "\<bar>x\<bar> < 2 ^ 53 * q" by (simp add: pe1)
  then have "\<bar>x / q\<bar> \<le> of_int (2 ^ 53)" using qpos by (simp add: ax field_simps)
  then have mhi: "\<bar>m\<bar> \<le> 2 ^ 53" unfolding m_def by (rule round_half_even_abs_le)
  show ?thesis
  proof (cases "\<bar>m\<bar> = 2 ^ 53")
    case False
    with mhi have "\<bar>m\<bar> < 2 ^ 53" by simp
    then have "(of_int \<bar>m\<bar> :: real) < 2 ^ 53" by (rule real_of_int_pow2_less)
    then have u: "\<bar>y\<bar> < 2 powi (e + 1)" using qpos by (simp add: ay pe1)
    have l: "- 1022 < e \<longrightarrow> 2 powi e \<le> \<bar>y\<bar>"
    proof
      assume "- 1022 < e"
      with mlo have "2 ^ 52 \<le> \<bar>m\<bar>" by simp
      then have "(2::real) ^ 52 \<le> of_int \<bar>m\<bar>" by (rule real_of_int_pow2_le)
      then show "2 powi e \<le> \<bar>y\<bar>" using qpos by (simp add: ay pe)
    qed
    have "exponent \<bar>y\<bar> = e"
      using y0 eb(1) e1023 l u by (intro exponent_eq) simp_all
    with y y0 ylt ygt show ?thesis unfolding q_def by (intro fl_at_exponent[of y m e]) simp_all
  next
    case True
    have am: "(of_int \<bar>m\<bar> :: real) = 2 ^ 53" unfolding True by simp
    then have yv: "\<bar>y\<bar> = 2 powi (e + 1)" by (simp add: ay pe1)
    have "e + 1 \<le> 1023"
    proof (rule ccontr)
      assume "\<not> e + 1 \<le> 1023"
      with e1023 have "e + 1 = 1024" by simp
      with yv have "\<bar>y\<bar> = 2 powi 1024" by simp
      then show False using aylt by simp
    qed
    moreover have "\<bar>y\<bar> < 2 powi (e + 1 + 1)"
      using powi2_plus1[of "e + 1"] yv by simp
    ultimately have ex: "exponent \<bar>y\<bar> = e + 1"
      using y0 eb(1) yv by (intro exponent_eq) simp_all
    have "even \<bar>m\<bar>" unfolding True by simp
    then have "even m" by simp
    then have m2: "m = 2 * (m div 2)" by simp
    have q1: "(2::real) powi (e + 1 - 52) = 2 * q"
      using powi2_plus1[of "e - 52"] by (simp add: q_def algebra_simps)
    have "y = of_int (m div 2) * 2 powi (e + 1 - 52)"
    proof -
      have "(of_int m :: real) = of_int (2 * (m div 2))" using m2 by simp
      then have "of_int m = (2::real) * of_int (m div 2)" by simp
      then have "y = of_int (m div 2) * (2 * q)" by (simp add: y)
      then show ?thesis by (simp only: q1)
    qed
    with ex y0 ylt ygt show ?thesis by (intro fl_at_exponent[of y "m div 2" "e + 1"]) simp_all
  qed
qed

lemma fl_small_values: "fl 0 = Num 0" "fl 1 = Num 1"
  by (simp_all add: fl_def exponent_def exponent_up.simps round_half_even_def Let_def)

lemma fmul_one:
  assumes "\<And>y. X = Num y \<Longrightarrow> is_double y"
  shows "fmul X (Num 1) = X"
proof (cases X)
  case (Num y)
  with assms have "fl y = Num y" by (simp add: is_double_def)
  with Num show ?thesis by simp
qed simp_all

lemma doubled_is_double: "fmul (Num b) (Num 2) = Num y \<Longrightarrow> is_double y"
  unfolding is_double_def by (rule fl_idem[of "b * 2"]) simp

subsection \<open>The damage computation\<close>

lemma calculateDamage_eq_double:
  assumes "is_double (damage w)" and "weapon_range w \<noteq> 0"
  shows "calculateDamage w critical (Some distance) =
         finalDamage_double (damage w) critical distance (weapon_range w)"
proof (cases "distance = 0")
  case False
  have "fmul (Num (damage w)) (Num 1) = Num (damage w)"
    using assms(1) by (intro fmul_one) simp
  with False show ?thesis
    by (simp add: calculateDamage_def finalDamage_double_def Let_def)
next
  case True
  have one: "Math_max0 (fsub (Num 1) (fdiv (Num 0) (Num (weapon_range w)))) = Num 1"
    using assms(2) by (simp add: fl_small_values)
  show ?thesis
  proof (cases critical)
    case False
    have "fmul (Num (damage w)) (Num 1) = Num (damage w)"
      using assms(1) by (intro fmul_one) simp
    with True False one show ?thesis
      by (simp add: calculateDamage_def finalDamage_double_def Let_def)
  next
    case c: True
    have "fmul (fmul (Num (damage w)) (Num 2)) (Num 1) = fmul (Num (damage w)) (Num 2)"
      by (intro fmul_one) (rule doubled_is_double)
    with True c one show ?thesis
      by (simp add: calculateDamage_def finalDamage_double_def Let_def)
  qed
qed

lemma scenario_axe_damage_range:
  "damage scenario_axe = 40" "weapon_range scenario_axe = 2.5"
  by (simp_all add: scenario_axe_def MeleeWeapon_new_def no_params_def num_or_def)

lemma default_gun_damage_range:
  "damage default_gun = 25" "weapon_range default_gun = 100"
  by (simp_all add: default_gun_def RangedWeapon_new_def no_params_def num_or_def)

lemmas fl_eval = fl_def exponent_def exponent_up.simps exponent_down.simps
  round_half_even_def Let_def

lemma scenario_A_value: "calculateDamage scenario_axe False (Some 2.0) = Num 8"
  by (simp add: calculateDamage_def scenario_axe_damage_range fl_eval)

text \<open>
  C5, as the code has it. For every weapon (of either kind) whose damage is a double
  and whose range is not \<open>0\<close>, every distance and critical flag, the damage that
  \<open>calculateDamage\<close> computes is
  \<open>Math.round (baseDamage * (critical ? 2 : 1) * Math.max (0, 1 - distance / range))\<close>
  with every operation that of the doubles, rounded to the nearest double; for a melee
  weapon of damage \<open>40\<close> and range \<open>2.5\<close> at distance \<open>2.0\<close> it is \<open>8\<close>.
\<close>

theorem calculateDamage_double_formula:
  "(is_double (damage w) \<and> weapon_range w \<noteq> 0 \<longrightarrow>
      calculateDamage w critical (Some distance) =
        finalDamage_double (damage w) critical distance (weapon_range w)) \<and>
   damage scenario_axe = 40 \<and> weapon_range scenario_axe = 2.5 \<and>
   calculateDamage scenario_axe False (Some 2.0) = Num 8"
  using calculateDamage_eq_double[of w critical distance]
    scenario_axe_damage_range scenario_A_value
  by blast

theorem calculateDamage_double_formula_witness:
  "is_double (damage scenario_axe) \<and> weapon_range scenario_axe \<noteq> 0 \<and>
   calculateDamage scenario_axe True (Some 2.0) =
     finalDamage_double (damage scenario_axe) True 2.0 (weapon_range scenario_axe)"
proof -
  have h: "is_double (damage scenario_axe) \<and> weapon_range scenario_axe \<noteq> 0"
    by (simp add: scenario_axe_damage_range is_double_def fl_eval)
  show ?thesis
    using h calculateDamage_double_formula[of scenario_axe True "2.0"] by blast
qed

text \<open>
  C5 as stated fails: for the weapon built by \<open>new RangedWeapon()\<close> (damage \<open>25\<close>, range
  \<open>100\<close>) at distance \<open>34\<close> the code computes \<open>16\<close>, where the formula gives
  \<open>round (25 * 0.66) = round 16.5 = 17\<close>; and at distance \<open>10 + 2 ^ -49\<close>, the double next
  above \<open>10\<close>, the code computes \<open>23\<close>, where the formula, whose exact value lies below
  \<open>22.5\<close>, gives \<open>22\<close>.
\<close>

theorem calculateDamage_differs_from_formula:
  "calculateDamage default_gun False (Some 34) = Num 16 \<and>
   finalDamage_spec (damage default_gun) False 34 (weapon_range default_gun) = 17 \<and>
   is_double (10 + 1 / 2 ^ 49) \<and>
   calculateDamage default_gun False (Some (10 + 1 / 2 ^ 49)) = Num 23 \<and>
   finalDamage_spec (damage default_gun) False (10 + 1 / 2 ^ 49) (weapon_range default_gun) = 22"
proof -
  have "calculateDamage default_gun False (Some 34) = Num 16"
    by (simp add: calculateDamage_def default_gun_damage_range fl_eval)
  moreover have "finalDamage_spec (damage default_gun) False 34 (weapon_range default_gun) = 17"
  proof -
    have "(25::real) * max 0 (1 - 34 / 100) = 33 / 2" by simp
    then show ?thesis
      by (simp add: finalDamage_spec_def default_gun_damage_range round_def)
  qed
  moreover have "is_double (10 + 1 / 2 ^ 49)"
    by (simp add: is_double_def fl_eval)
  moreover have "calculateDamage default_gun False (Some (10 + 1 / 2 ^ 49)) = Num 23"
    by (simp add: calculateDamage_def default_gun_damage_range fl_eval)
  moreover have
    "finalDamage_spec (damage default_gun) False (10 + 1 / 2 ^ 49) (weapon_range default_gun) = 22"
    by (simp add: finalDamage_spec_def default_gun_damage_range round_def)
  ultimately show ?thesis by simp
qed

lemma performRaycast_nothing: "performRaycast raycast w position direction = []"
  by (simp add: performRaycast_def intersectObjects_def)

lemma reload_ammo:
  "ammo_current (snd (reload w)) = ammo_current w"
  "ammo_reserve (snd (reload w)) = ammo_reserve w"
  "ammo_max (snd (reload w)) = ammo_max w"
  by (simp_all add: reload_def)

lemma RangedWeapon_use_ammo:
  "ammo_current (fst (snd (RangedWeapon_use raycast now rnd position direction w))) =
     (if \<not> isReloading w \<and> 0 < ammo_current w \<and> canUse now w
      then ammo_current w - 1 else ammo_current w)"
  "ammo_reserve (fst (snd (RangedWeapon_use raycast now rnd position direction w))) =
     ammo_reserve w"
  "ammo_max (fst (snd (RangedWeapon_use raycast now rnd position direction w))) = ammo_max w"
  by (simp_all add: RangedWeapon_use_def Weapon_use_def reload_ammo Let_def
      split: prod.splits)

lemma RangedWeapon_update_ammo:
  "ammo_current (RangedWeapon_update deltaTime w) + ammo_reserve (RangedWeapon_update deltaTime w)
     = ammo_current w + ammo_reserve w"
  "ammo_max (RangedWeapon_update deltaTime w) = ammo_max w"
  "ammo_current w \<le> ammo_max w \<Longrightarrow>
     ammo_current (RangedWeapon_update deltaTime w) \<le> ammo_max w"
  by (auto simp add: RangedWeapon_update_def Let_def min_def)

lemma ranged_step_current_le_max:
  "ammo_current w \<le> ammo_max w \<Longrightarrow>
     ammo_current (ranged_step raycast w c) \<le> ammo_max (ranged_step raycast w c)"
  by (cases c) (simp_all add: RangedWeapon_use_ammo reload_ammo RangedWeapon_update_ammo)

lemma foldl_current_le_max:
  "ammo_current w \<le> ammo_max w \<Longrightarrow>
     ammo_current (foldl (ranged_step raycast) w calls) \<le>
     ammo_max (foldl (ranged_step raycast) w calls)"
  by (induction calls arbitrary: w) (simp_all add: ranged_step_current_le_max)

text \<open>
  C4. For a ranged weapon that starts with \<open>current \<le> max\<close>, after any sequence of
  \<open>use\<close>, \<open>reload\<close> and \<open>update\<close> calls: \<open>current\<close> does not exceed \<open>max\<close>; a further
  \<open>use\<close> does not increase \<open>current + reserve\<close>; a further \<open>update\<close> (where a reload
  completes) does not decrease it.
\<close>

theorem ranged_ammo_conservation:
  "ammo_current w \<le> ammo_max w \<Longrightarrow>
     ammo_current (ranged_run raycast w calls) \<le> ammo_max (ranged_run raycast w calls) \<and>
     ammo_current (ranged_step raycast (ranged_run raycast w calls)
                     (Use now rnd position direction)) +
     ammo_reserve (ranged_step raycast (ranged_run raycast w calls)
                     (Use now rnd position direction))
       \<le> ammo_current (ranged_run raycast w calls) + ammo_reserve (ranged_run raycast w calls) \<and>
     ammo_current (ranged_step raycast (ranged_run raycast w calls) (UpdateWeapon deltaTime)) +
     ammo_reserve (ranged_step raycast (ranged_run raycast w calls) (UpdateWeapon deltaTime))
       \<ge> ammo_current (ranged_run raycast w calls) + ammo_reserve (ranged_run raycast w calls)"
proof -
  assume a: "ammo_current w \<le> ammo_max w"
  let ?w = "ranged_run raycast w calls"
  have 1: "ammo_current ?w \<le> ammo_max ?w"
    unfolding ranged_run_def using a by (rule foldl_current_le_max)
  have 2: "ammo_current (ranged_step raycast ?w (Use now rnd position direction)) +
           ammo_reserve (ranged_step raycast ?w (Use now rnd position direction))
             \<le> ammo_current ?w + ammo_reserve ?w"
    by (simp add: RangedWeapon_use_ammo)
  have 3: "ammo_current (ranged_step raycast ?w (UpdateWeapon deltaTime)) +
           ammo_reserve (ranged_step raycast ?w (UpdateWeapon deltaTime))
             \<ge> ammo_current ?w + ammo_reserve ?w"
    by (simp add: RangedWeapon_update_ammo)
  from 1 2 3 show ?thesis by blast
qed

lemma one_round_gun_fields:
  "ammo_current one_round_gun = 1" "ammo_max one_round_gun = 1"
  "ammo_reserve one_round_gun = 90" "lastUsed one_round_gun = 0"
  "cooldown one_round_gun = 0.1" "isReloading one_round_gun = False"
  by (simp_all add: one_round_gun_def RangedWeapon_new_def no_params_def num_or_def)

theorem ranged_ammo_conservation_witness:
  "ammo_current one_round_gun \<le> ammo_max one_round_gun \<and>
   ammo_current (ranged_run wall_ahead one_round_gun [Reload, UpdateWeapon 3]) \<le>
     ammo_max (ranged_run wall_ahead one_round_gun [Reload, UpdateWeapon 3]) \<and>
   ammo_current (ranged_step wall_ahead
       (ranged_run wall_ahead one_round_gun [Reload, UpdateWeapon 3])
       (Use 10 (0.5, 0.5, 0.5) (0, 0, 0) (0, 0, - 1))) +
   ammo_reserve (ranged_step wall_ahead
       (ranged_run wall_ahead one_round_gun [Reload, UpdateWeapon 3])
       (Use 10 (0.5, 0.5, 0.5) (0, 0, 0) (0, 0, - 1)))
     \<le> ammo_current (ranged_run wall_ahead one_round_gun [Reload, UpdateWeapon 3]) +
        ammo_reserve (ranged_run wall_ahead one_round_gun [Reload, UpdateWeapon 3]) \<and>
   ammo_current (ranged_step wall_ahead
       (ranged_run wall_ahead one_round_gun [Reload, UpdateWeapon 3]) (UpdateWeapon 1)) +
   ammo_reserve (ranged_step wall_ahead
       (ranged_run wall_ahead one_round_gun [Reload, UpdateWeapon 3]) (UpdateWeapon 1))
     \<ge> ammo_current (ranged_run wall_ahead one_round_gun [Reload, UpdateWeapon 3]) +
        ammo_reserve (ranged_run wall_ahead one_round_gun [Reload, UpdateWeapon 3])"
proof -
  have h: "ammo_current one_round_gun \<le> ammo_max one_round_gun"
    by (simp add: one_round_gun_fields)
  show ?thesis
    using h ranged_ammo_conservation[OF h, of wall_ahead "[Reload, UpdateWeapon 3]"
        10 "(0.5, 0.5, 0.5)" "(0, 0, 0)" "(0, 0, - 1)" 1]
    by blast
qed

text \<open>
  C3, as the code has it. A \<open>use\<close> issued strictly before \<open>cooldown\<close> seconds have
  passed since \<open>lastUsed\<close> returns failure and calls no hit callback. A melee weapon is
  left as it was. A ranged weapon is left as it was, except when it is not reloading
  and its magazine is empty: there \<open>use\<close> calls \<open>reload()\<close> before it looks at the
  cooldown, and with \<open>current \<noteq> max\<close> and \<open>reserve > 0\<close> that sets \<open>isReloading\<close> and
  resets \<open>reloadProgress\<close>; ammo and \<open>lastUsed\<close> stay as they were in every case.
\<close>

theorem use_before_cooldown:
  "(now - lastUsed m < cooldown m \<longrightarrow>
      MeleeWeapon_use raycast now position direction m = (False, m, [])) \<and>
   (now - lastUsed r < cooldown r \<longrightarrow>
      RangedWeapon_use raycast now rnd position direction r =
        (False,
         (if \<not> isReloading r \<and> ammo_current r \<le> 0 \<and> ammo_current r \<noteq> ammo_max r \<and>
             0 < ammo_reserve r
          then r\<lparr>isReloading := True, reloadProgress := 0\<rparr> else r),
         []))"
  by (simp add: MeleeWeapon_use_def RangedWeapon_use_def Weapon_use_def canUse_def
      reload_def)

lemma scenario_axe_fields:
  "lastUsed scenario_axe = 0" "cooldown scenario_axe = 0.8"
  by (simp_all add: scenario_axe_def MeleeWeapon_new_def no_params_def num_or_def)

theorem use_before_cooldown_witness:
  "0.05 - lastUsed scenario_axe < cooldown scenario_axe \<and>
   MeleeWeapon_use wall_ahead 0.05 (0, 0, 0) (0, 0, - 1) scenario_axe =
     (False, scenario_axe, []) \<and>
   0.05 - lastUsed one_round_gun < cooldown one_round_gun \<and>
   RangedWeapon_use wall_ahead 0.05 (0.5, 0.5, 0.5) (0, 0, 0) (0, 0, - 1) one_round_gun =
     (False, one_round_gun, [])"
proof -
  have h1: "0.05 - lastUsed scenario_axe < cooldown scenario_axe"
    by (simp add: scenario_axe_fields)
  have h2: "0.05 - lastUsed one_round_gun < cooldown one_round_gun"
    by (simp add: one_round_gun_fields)
  have n: "\<not> (\<not> isReloading one_round_gun \<and> ammo_current one_round_gun \<le> 0 \<and>
                ammo_current one_round_gun \<noteq> ammo_max one_round_gun \<and>
                0 < ammo_reserve one_round_gun)"
    by (simp add: one_round_gun_fields)
  show ?thesis
    using h1 h2 n
      use_before_cooldown[where now = "0.05" and m = scenario_axe and raycast = wall_ahead
        and position = "(0, 0, 0)" and direction = "(0, 0, - 1)"
        and r = one_round_gun and rnd = "(0.5, 0.5, 0.5)"]
    by presburger
qed

lemma fired_gun_eq:
  "fired_gun = one_round_gun\<lparr>lastUsed := 10, ammo_current := 0, muzzleFlash_visible := True\<rparr>"
  by (simp add: fired_gun_def RangedWeapon_use_def Weapon_use_def canUse_def one_round_gun_def
      RangedWeapon_new_def no_params_def num_or_def str_or_def bool_or_def Let_def
      performRaycast_nothing)

text \<open>
  C3 as stated fails: the weapon built by \<open>new RangedWeapon({startAmmo: 1, maxAmmo: 1})\<close>
  fires its round at time \<open>10\<close>; a second \<open>use\<close> at time \<open>10.05\<close>, before the cooldown
  of \<open>0.1\<close> has passed, returns failure and turns the reloading flag on.
\<close>

theorem use_before_cooldown_starts_reload:
  "10.05 - lastUsed fired_gun < cooldown fired_gun \<and>
   \<not> fst (RangedWeapon_use wall_ahead 10.05 (0.5, 0.5, 0.5) (0, 0, 0) (0, 0, - 1) fired_gun) \<and>
   \<not> isReloading fired_gun \<and>
   isReloading
     (fst (snd (RangedWeapon_use wall_ahead 10.05 (0.5, 0.5, 0.5) (0, 0, 0) (0, 0, - 1)
                  fired_gun)))"
  by (simp add: fired_gun_eq one_round_gun_fields RangedWeapon_use_def reload_def)

text \<open>
  The fan of rays of a melee swing: the centre ray and \<open>arcSteps\<close> rays on each side,
  at angles that mirror each other.
\<close>

lemma arcAngles_values:
  "arcAngles a =
     [a / 10, - (a / 10), a / 5, - (a / 5), 3 * a / 10, - (3 * a / 10),
      2 * a / 5, - (2 * a / 5), a / 2, - (a / 2)]"
  by (simp add: arcAngles_def arcSteps_def upt_rec)

lemma rayDirections_count: "length (rayDirections arcAngle direction) = 2 * arcSteps + 1"
  by (simp add: rayDirections_def arcAngles_values arcSteps_def)

lemma arcAngles_mirrored: "set (map uminus (arcAngles a)) = set (arcAngles a)"
  by (auto simp add: arcAngles_values)

text \<open>No ray meets anything, whatever the scene holds: the list of objects is empty.\<close>

lemma performHitDetection_nothing: "performHitDetection raycast w position direction = []"
  by (simp add: performHitDetection_def intersectObjects_def Let_def)

text \<open>
  C2 (the code with a target straight ahead). A melee weapon of range \<open>2.5\<close> is swung
  at time \<open>10\<close> from the origin along \<open>(0, 0, -1)\<close>; object \<open>7\<close> of the scene meets the
  centre ray at distance \<open>1\<close>. The swing passes the cooldown check and returns success,
  and the hit callback is never called.
\<close>

theorem melee_swing_reports_no_hit:
  "fst (MeleeWeapon_use wall_ahead 10 (0, 0, 0) (0, 0, - 1) scenario_axe) \<and>
   snd (snd (MeleeWeapon_use wall_ahead 10 (0, 0, 0) (0, 0, - 1) scenario_axe)) = [] \<and>
   intersectObjects wall_ahead (0, 0, 0) (0, 0, - 1) (weapon_range scenario_axe) [7] =
     [\<lparr>hit_distance = 1, hit_point = (0, 0, - 1), hit_normal = (0, 0, 1), hit_object = 7\<rparr>]"
proof -
  have r: "weapon_range scenario_axe = 2.5"
    by (simp add: scenario_axe_def MeleeWeapon_new_def no_params_def num_or_def)
  have "fst (MeleeWeapon_use wall_ahead 10 (0, 0, 0) (0, 0, - 1) scenario_axe)"
    by (simp add: MeleeWeapon_use_def Weapon_use_def canUse_def scenario_axe_fields Let_def)
  moreover have
    "snd (snd (MeleeWeapon_use wall_ahead 10 (0, 0, 0) (0, 0, - 1) scenario_axe)) = []"
    by (simp add: MeleeWeapon_use_def Weapon_use_def canUse_def scenario_axe_fields Let_def
        performHitDetection_nothing)
  moreover have
    "intersectObjects wall_ahead (0, 0, 0) (0, 0, - 1) (weapon_range scenario_axe) [7] =
     [\<lparr>hit_distance = 1, hit_point = (0, 0, - 1), hit_normal = (0, 0, 1), hit_object = 7\<rparr>]"
    by (simp add: intersectObjects_def wall_ahead_def r)
  ultimately show ?thesis by simp
qed

section \<open>Properties of the player\<close>

lemma equipWeapon_keeps:
  "health (snd (equipWeapon i p)) = health p"
  "lookVerticalMin (snd (equipWeapon i p)) = lookVerticalMin p"
  "lookVerticalMax (snd (equipWeapon i p)) = lookVerticalMax p"
  "currentLookVertical (snd (equipWeapon i p)) = currentLookVertical p"
  "length (weapons (snd (equipWeapon i p))) = length (weapons p)"
  by (simp_all add: equipWeapon_def updateAmmoUI_def Let_def
      split: option.splits AnyWeapon.splits)

lemma addWeapon_keeps:
  "health (addWeapon w p) = health p"
  "lookVerticalMin (addWeapon w p) = lookVerticalMin p"
  "lookVerticalMax (addWeapon w p) = lookVerticalMax p"
  "currentLookVertical (addWeapon w p) = currentLookVertical p"
  "length (weapons (addWeapon w p)) = Suc (length (weapons p))"
  by (simp_all add: addWeapon_def)

lemma initializeWeapons_keeps:
  "health (initializeWeapons p) = health p"
  "lookVerticalMin (initializeWeapons p) = lookVerticalMin p"
  "lookVerticalMax (initializeWeapons p) = lookVerticalMax p"
  "currentLookVertical (initializeWeapons p) = currentLookVertical p"
  "length (weapons (initializeWeapons p)) = length (weapons p) + 5"
  by (simp_all add: initializeWeapons_def Let_def equipWeapon_keeps addWeapon_keeps)

lemma Player_new_fields:
  "health (Player_new camx) = 100"
  "lookVerticalMin (Player_new camx) = - pi * 0.4"
  "lookVerticalMax (Player_new camx) = pi * 0.4"
  "currentLookVertical (Player_new camx) = 0"
  "length (weapons (Player_new camx)) = 5"
  by (simp_all add: Player_new_def initializeWeapons_keeps)

lemma cycle_keeps:
  "health (snd (nextWeapon p)) = health p"
  "lookVerticalMin (snd (nextWeapon p)) = lookVerticalMin p"
  "lookVerticalMax (snd (nextWeapon p)) = lookVerticalMax p"
  "currentLookVertical (snd (nextWeapon p)) = currentLookVertical p"
  "health (snd (previousWeapon p)) = health p"
  "lookVerticalMin (snd (previousWeapon p)) = lookVerticalMin p"
  "lookVerticalMax (snd (previousWeapon p)) = lookVerticalMax p"
  "currentLookVertical (snd (previousWeapon p)) = currentLookVertical p"
  by (simp_all add: nextWeapon_def previousWeapon_def equipWeapon_keeps)

lemma takeDamage_effect:
  "takeDamage amount p =
     p\<lparr>health := health p - amount,
       console := console p @ (if health p - amount \<le> 0 then [PlayerDied] else [])\<rparr>"
  by (simp add: takeDamage_def Let_def)

lemma updateLook_keeps:
  "health (updateLook dx dy dt p) = health p"
  "lookVerticalMin (updateLook dx dy dt p) = lookVerticalMin p"
  "lookVerticalMax (updateLook dx dy dt p) = lookVerticalMax p"
  by (simp_all add: updateLook_def Let_def)

lemma updateLook_clamped:
  assumes "lookVerticalMin p \<le> lookVerticalMax p"
    and "lookVerticalMin p \<le> currentLookVertical p"
    and "currentLookVertical p \<le> lookVerticalMax p"
  shows "lookVerticalMin p \<le> currentLookVertical (updateLook dx dy dt p) \<and>
         currentLookVertical (updateLook dx dy dt p) \<le> lookVerticalMax p"
  using assms by (simp add: updateLook_def Let_def)

lemma updateLook_camera:
  "camera_rotation_x (updateLook dx dy dt p) = camera_rotation_x p \<and>
     currentLookVertical (updateLook dx dy dt p) = currentLookVertical p \<or>
   camera_rotation_x (updateLook dx dy dt p) = currentLookVertical (updateLook dx dy dt p)"
  by (simp add: updateLook_def Let_def)

lemma camera_keeps:
  "camera_rotation_x (snd (equipWeapon i p)) = camera_rotation_x p"
  "camera_rotation_x (snd (nextWeapon p)) = camera_rotation_x p"
  "camera_rotation_x (snd (previousWeapon p)) = camera_rotation_x p"
  "camera_rotation_x (takeDamage amount p) = camera_rotation_x p"
  "camera_rotation_x (addWeapon w p) = camera_rotation_x p"
  by (simp_all add: nextWeapon_def previousWeapon_def equipWeapon_def updateAmmoUI_def
      takeDamage_effect addWeapon_def Let_def split: option.splits AnyWeapon.splits)

lemma Player_new_camera: "camera_rotation_x (Player_new camx) = camx"
  by (simp add: Player_new_def initializeWeapons_def Let_def camera_keeps)

lemma look_ok_step: "look_ok camx p \<Longrightarrow> look_ok camx (player_step p c)"
proof (cases c)
  case (UpdateLook dx dy dt)
  assume a: "look_ok camx p"
  then have "lookVerticalMin p \<le> lookVerticalMax p" by (simp add: look_ok_def)
  with a updateLook_clamped[of p dx dy dt] updateLook_camera[of dx dy dt p] show ?thesis
    by (auto simp add: UpdateLook look_ok_def updateLook_keeps)
qed (simp_all add: look_ok_def takeDamage_effect equipWeapon_keeps cycle_keeps camera_keeps)

lemma look_ok_foldl: "look_ok camx p \<Longrightarrow> look_ok camx (foldl player_step p calls)"
  by (induction calls arbitrary: p) (simp_all add: look_ok_step)

text \<open>
  C6. After every sequence of calls on a freshly constructed player (mouse-look updates
  with any deltas and frame times, mixed with the other calls), the pitch
  \<open>currentLookVertical\<close>, which starts at \<open>0\<close>, lies within \<open>[-0.4 \<pi>, 0.4 \<pi>]\<close>, and
  the camera's \<open>rotation.x\<close> is that pitch, or still the value the camera came with.
\<close>

theorem pitch_within_limits:
  "- (0.4 * pi) \<le> currentLookVertical (player_run (Player_new camx) calls) \<and>
   currentLookVertical (player_run (Player_new camx) calls) \<le> 0.4 * pi \<and>
   (camera_rotation_x (player_run (Player_new camx) calls) = camx \<or>
    camera_rotation_x (player_run (Player_new camx) calls) =
      currentLookVertical (player_run (Player_new camx) calls))"
proof -
  have "look_ok camx (Player_new camx)"
    by (simp add: look_ok_def Player_new_fields Player_new_camera)
  then have "look_ok camx (player_run (Player_new camx) calls)"
    unfolding player_run_def by (rule look_ok_foldl)
  then show ?thesis by (simp add: look_ok_def)
qed

text \<open>
  C10. For an index below \<open>0\<close> or at least \<open>weapons.length\<close>, \<open>equipWeapon\<close> returns
  \<open>false\<close> and leaves the player as it was: \<open>currentWeaponIndex\<close>, the children of the
  weapon container and every other field keep their values.
\<close>

theorem equipWeapon_out_of_range:
  "index < 0 \<or> int (length (weapons p)) \<le> index \<Longrightarrow> equipWeapon index p = (False, p)"
  by (auto simp add: equipWeapon_def)

theorem equipWeapon_out_of_range_witness:
  "((5::int) < 0 \<or> int (length (weapons (Player_new 0))) \<le> 5) \<and>
   equipWeapon 5 (Player_new 0) = (False, Player_new 0)"
proof -
  have h: "(5::int) < 0 \<or> int (length (weapons (Player_new 0))) \<le> 5"
    by (simp add: Player_new_fields)
  show ?thesis using h equipWeapon_out_of_range[OF h] by simp
qed

lemma health_step:
  "nonnegative_damage c \<Longrightarrow> health (player_step p c) \<le> health p"
  by (cases c) (simp_all add: takeDamage_effect updateLook_keeps equipWeapon_keeps cycle_keeps)

lemma health_foldl:
  "list_all nonnegative_damage calls \<Longrightarrow> health (foldl player_step p calls) \<le> health p"
proof (induction calls arbitrary: p)
  case Nil
  then show ?case by simp
next
  case (Cons c calls)
  then have "health (foldl player_step (player_step p c) calls) \<le> health (player_step p c)"
    by simp
  moreover have "health (player_step p c) \<le> health p"
    using Cons.prems by (simp add: health_step)
  ultimately show ?case by simp
qed

text \<open>
  C8, as the code has it. After every sequence of calls on a freshly constructed player
  in which no \<open>takeDamage\<close> amount is negative, \<open>health\<close> is at most \<open>100\<close>, and the
  percentage that \<open>updateHealthUI\<close> writes to the health bar, \<open>max(0, health)\<close>, lies
  between \<open>0\<close> and \<open>100\<close>. (\<open>health\<close> itself is not bounded below.)
\<close>

theorem health_at_most_100:
  "list_all nonnegative_damage calls \<Longrightarrow>
     health (player_run (Player_new camx) calls) \<le> 100 \<and>
     0 \<le> updateHealthUI (health (player_run (Player_new camx) calls)) \<and>
     updateHealthUI (health (player_run (Player_new camx) calls)) \<le> 100"
proof -
  assume "list_all nonnegative_damage calls"
  then have "health (player_run (Player_new camx) calls) \<le> health (Player_new camx)"
    unfolding player_run_def by (rule health_foldl)
  then have "health (player_run (Player_new camx) calls) \<le> 100"
    by (simp add: Player_new_fields)
  then show ?thesis by (simp add: updateHealthUI_def Let_def)
qed

theorem health_at_most_100_witness:
  "list_all nonnegative_damage [TakeDamage 70, UpdateLook 3 (- 2) 0.016, TakeDamage 40] \<and>
   health (player_run (Player_new 0) [TakeDamage 70, UpdateLook 3 (- 2) 0.016, TakeDamage 40])
     \<le> 100 \<and>
   0 \<le> updateHealthUI
     (health (player_run (Player_new 0) [TakeDamage 70, UpdateLook 3 (- 2) 0.016, TakeDamage 40])) \<and>
   updateHealthUI
     (health (player_run (Player_new 0) [TakeDamage 70, UpdateLook 3 (- 2) 0.016, TakeDamage 40]))
     \<le> 100"
proof -
  have h: "list_all nonnegative_damage
             [TakeDamage 70, UpdateLook 3 (- 2) 0.016, TakeDamage 40]"
    by simp
  show ?thesis using h health_at_most_100[OF h, of 0] by simp
qed

text \<open>
  C8 as stated fails: \<open>takeDamage(70)\<close> and \<open>takeDamage(40)\<close> on a fresh player leave
  \<open>health = -10\<close>, below \<open>0\<close>; and \<open>takeDamage(-50)\<close> leaves \<open>health = 150\<close>, which the
  health bar shows as \<open>150\<close> percent.
\<close>

theorem health_leaves_range:
  "health (player_run (Player_new 0) [TakeDamage 70, TakeDamage 40]) = - 10 \<and>
   health (player_run (Player_new 0) [TakeDamage (- 50)]) = 150 \<and>
   updateHealthUI (health (player_run (Player_new 0) [TakeDamage (- 50)])) = 150"
  by (simp add: player_run_def takeDamage_effect Player_new_fields updateHealthUI_def)

text \<open>
  C7 (the code at the input of the spec's own scenario). A player at health \<open>30\<close>
  takes \<open>40\<close> damage: \<open>health\<close> becomes \<open>-10\<close> and one line \<open>Player died\<close> goes to the
  console. When the orchestrator delivers that damage, its death handler is not run: the
  death count stays \<open>0\<close> and the kill feed stays empty, where one run of
  \<open>handlePlayerDeath\<close> would count one death.
\<close>

theorem death_not_notified:
  "health (takeDamage 70 (Player_new 0)) = 30 \<and>
   health (takeDamage 40 (takeDamage 70 (Player_new 0))) = - 10 \<and>
   console (takeDamage 40 (takeDamage 70 (Player_new 0))) =
     console (Player_new 0) @ [PlayerDied] \<and>
   deaths (handleProjectileHit_player 40
     \<lparr>player = takeDamage 70 (Player_new 0), deaths = 0, killFeed = []\<rparr>) = 0 \<and>
   killFeed (handleProjectileHit_player 40
     \<lparr>player = takeDamage 70 (Player_new 0), deaths = 0, killFeed = []\<rparr>) = [] \<and>
   deaths (handlePlayerDeath
     \<lparr>player = takeDamage 70 (Player_new 0), deaths = 0, killFeed = []\<rparr>) = 1"
  by (simp add: takeDamage_effect Player_new_fields handleProjectileHit_player_def
      handlePlayerDeath_def)

end
